theory Spec2Isabelle
  imports Complex_Main "HOL-Library.Multiset" "HOL-Library.Product_Lexorder"
begin
section \<open>Python strings\<close>

text \<open>
  A Python \<open>str\<close> is a sequence of code points.  The model uses \<^typ>\<open>string\<close>, whose
  characters are the code points 0 to 255 (Latin-1): on that range a \<^typ>\<open>char\<close> is one code
  point, \<open>CHR 0xA0\<close> is the non-breaking space, and the only decimal digits are \<open>0\<close> to
  \<open>9\<close>.  Code points above 255 are outside the model.
\<close>

text \<open>\<open>str.isspace\<close> on one character: the white space of \<open>str.strip()\<close> and
  \<open>str.split()\<close>.  On Latin-1 these are TAB, LF, VT, FF, CR, the separators 0x1C to 0x1F, the
  space, NEL (0x85) and the non-breaking space (0xA0).\<close>

definition isspace :: "char \<Rightarrow> bool" where
  "isspace c = (of_char c \<in> {9, 10, 11, 12, 13, 28, 29, 30, 31, 32, 133, 160 :: nat})"

definition lstrip :: "string \<Rightarrow> string" where
  "lstrip s = dropWhile isspace s"

definition rstrip :: "string \<Rightarrow> string" where
  "rstrip s = rev (dropWhile isspace (rev s))"

text \<open>\<open>s.strip()\<close>\<close>

definition strip :: "string \<Rightarrow> string" where
  "strip s = rstrip (lstrip s)"

text \<open>\<open>s.replace(old, new)\<close> for one-character \<open>old\<close> and \<open>new\<close>\<close>

definition replace_char :: "char \<Rightarrow> char \<Rightarrow> string \<Rightarrow> string" where
  "replace_char old new s = map (\<lambda>c. if c = old then new else c) s"

text \<open>\<open>s.split()\<close> with no argument: the maximal runs of characters that are not white
  space, in order; no empty string is returned.\<close>

function split_ws :: "string \<Rightarrow> string list" where
  "split_ws [] = []"
| "split_ws (c # cs) =
     (if isspace c then split_ws cs
      else (c # takeWhile (\<lambda>x. \<not> isspace x) cs) # split_ws (dropWhile (\<lambda>x. \<not> isspace x) cs))"
  by pat_completeness auto
termination
  by (relation "measure length") (auto simp: length_dropWhile_le less_Suc_eq_le)

text \<open>\<open>sep.join(ws)\<close>\<close>

fun join :: "string \<Rightarrow> string list \<Rightarrow> string" where
  "join sep [] = []"
| "join sep [w] = w"
| "join sep (w # v # ws) = w @ sep @ join sep (v # ws)"

section \<open>The table extractor (parse_hko_tables.py)\<close>

text \<open>\<open>normalize_text(s)\<close>; the argument may be \<open>None\<close>.  Both \<open>replace\<close> calls of the source
  name the same character, U+00A0.\<close>

definition normalize_text :: "string option \<Rightarrow> string" where
  "normalize_text s =
     (case s of
        None \<Rightarrow> []
      | Some s' \<Rightarrow>
          (let t = strip s';
               t = strip (replace_char (CHR 0xA0) (CHR '' '') (replace_char (CHR 0xA0) (CHR '' '') t))
           in join '' '' (split_ws t)))"


subsection \<open>The parsed document\<close>

text \<open>
  \<open>lxml.html.fromstring\<close> turns the HTML text into an element tree; the model starts from
  that tree.  An element has a tag and, in document order, its children: elements and runs
  of text.  Attributes, comments and processing instructions play no part in the queries of
  the extractor and are left out.
\<close>

datatype node = Element string "node list" | Text string

text \<open>All proper descendants of a node, in document order.\<close>

fun descendants :: "node \<Rightarrow> node list" where
  "descendants (Text s) = []"
| "descendants (Element tag cs) = concat (map (\<lambda>c. c # descendants c) cs)"

fun has_tag :: "string \<Rightarrow> node \<Rightarrow> bool" where
  "has_tag t (Element tag cs) = (tag = t)"
| "has_tag t (Text s) = False"

text \<open>\<open>tree.xpath('//tag')\<close> on the root of the document: every element with that tag, the
  root included.\<close>

definition xpath_all :: "string \<Rightarrow> node \<Rightarrow> node list" where
  "xpath_all t tree = filter (has_tag t) (tree # descendants tree)"

text \<open>\<open>el.xpath('.//tag')\<close>: every element with that tag below \<open>el\<close>.\<close>

definition xpath_desc :: "string \<Rightarrow> node \<Rightarrow> node list" where
  "xpath_desc t el = filter (has_tag t) (descendants el)"

text \<open>\<open>el.text_content()\<close>: the text of the element and of everything below it.\<close>

fun text_content :: "node \<Rightarrow> string" where
  "text_content (Text s) = s"
| "text_content (Element tag cs) = concat (map text_content cs)"

subsection \<open>parse_tables and main\<close>

text \<open>The loop \<open>while len(cells) < 10: cells.append('')\<close>.\<close>

function pad :: "string list \<Rightarrow> string list" where
  "pad cells = (if length cells < 10 then pad (cells @ [[]]) else cells)"
  by pat_completeness auto
termination
  by (relation "measure (\<lambda>cells. 10 - length cells)") auto

declare pad.simps [simp del]

text \<open>The list comprehension \<open>[normalize_text(td.text_content()) for td in tds]\<close>.\<close>

definition cells_of :: "node list \<Rightarrow> string list" where
  "cells_of tds = map (\<lambda>td. normalize_text (Some (text_content td))) tds"

text \<open>The body of the loop over the rows of one table: every \<open>continue\<close> leaves \<open>rows_out\<close>
  as it is.\<close>

definition parse_tr :: "string list list \<Rightarrow> node \<Rightarrow> string list list" where
  "parse_tr rows_out tr =
     (let ths = xpath_desc ''th'' tr in
      if ths \<noteq> [] then rows_out
      else let tds = xpath_desc ''td'' tr in
        if tds = [] then rows_out
        else let cells = cells_of tds in
          if length cells < 2 then rows_out
          else let cells = pad cells;
                   row10 = take 10 cells
               in rows_out @ [row10])"

definition parse_tables :: "node \<Rightarrow> string list list" where
  "parse_tables tree =
     foldl (\<lambda>rows_out table. foldl parse_tr rows_out (xpath_desc ''tr'' table))
       [] (xpath_all ''table'' tree)"

text \<open>What one run of the extractor leaves behind: nothing but the message
  \<open>No table rows parsed\<close>, or the CSV file with these rows under the fixed header.\<close>

datatype extractor_result = No_table_rows_parsed | Wrote_csv "string list list"

text \<open>\<open>main()\<close>, from the parsed document on (reading the file or fetching the page is not
  modelled).\<close>

definition main :: "node \<Rightarrow> extractor_result" where
  "main tree =
     (let rows = parse_tables tree in
      if rows = [] then No_table_rows_parsed else Wrote_csv rows)"

text \<open>
  The call \<open>html.fromstring(html_text)\<close> that opens \<open>parse_tables\<close> is not modelled: what
  the parser does is a parameter, which gives the tree of a document or raises
  (\<open>ParserError\<close> for a document with no content).  \<open>parse_tables\<close> and \<open>main\<close> above start
  from the tree; on a text, the run of the extractor is \<open>None\<close> when the parser raises, and
  nothing is written then.
\<close>

definition main_of_text :: "(string \<Rightarrow> node option) \<Rightarrow> string \<Rightarrow> extractor_result option" where
  "main_of_text fromstring html_text =
     (case fromstring html_text of None \<Rightarrow> None | Some tree \<Rightarrow> Some (main tree))"

section \<open>Python conversions used by the reshaper\<close>

definition is_digit :: "char \<Rightarrow> bool" where
  "is_digit c = (48 \<le> (of_char c :: nat) \<and> (of_char c :: nat) \<le> 57)"

definition digit_val :: "char \<Rightarrow> nat" where
  "digit_val c = of_char c - 48"

text \<open>The digits of a literal: \<open>digit (["_"] digit)*\<close>, single underscores between digits
  only.\<close>

fun digitpart_ok :: "string \<Rightarrow> bool" where
  "digitpart_ok [] = False"
| "digitpart_ok [c] = is_digit c"
| "digitpart_ok (c # d # cs) =
     (is_digit c \<and> (if d = CHR ''_'' then digitpart_ok cs else digitpart_ok (d # cs)))"

text \<open>The number a run of digits denotes in base ten, skipping underscores.\<close>

definition digits_value :: "string \<Rightarrow> nat" where
  "digits_value s = foldl (\<lambda>n c. 10 * n + digit_val c) 0 (filter (\<lambda>c. c \<noteq> CHR ''_'') s)"

text \<open>An optional sign in front of what \<open>body\<close> parses.\<close>

definition signed :: "(string \<Rightarrow> 'a option) \<Rightarrow> ('a \<Rightarrow> 'a) \<Rightarrow> string \<Rightarrow> 'a option" where
  "signed body neg s =
     (case s of
        [] \<Rightarrow> None
      | c # cs \<Rightarrow>
          if c = CHR ''-'' then map_option neg (body cs)
          else if c = CHR ''+'' then body cs
          else body s)"

text \<open>The white space that \<open>int()\<close> and \<open>float()\<close> drop around a literal: TAB, LF, VT, FF,
  CR, the space, NEL and the non-breaking space, but not the separators 0x1C to 0x1F.\<close>

definition num_space :: "char \<Rightarrow> bool" where
  "num_space c = (of_char c \<in> {9, 10, 11, 12, 13, 32, 133, 160 :: nat})"

definition num_strip :: "string \<Rightarrow> string" where
  "num_strip s = rev (dropWhile num_space (rev (dropWhile num_space s)))"

text \<open>The interpreter's default limit on the number of digits of an integer literal
  (\<open>sys.int_info.default_max_str_digits\<close>, Python 3.11): a literal with more digits raises
  \<open>ValueError\<close>.  Underscores and the sign are not counted.\<close>

definition max_str_digits :: nat where
  "max_str_digits = 4300"

definition int_literal :: "string \<Rightarrow> int option" where
  "int_literal ds =
     (if digitpart_ok ds \<and> length (filter is_digit ds) \<le> max_str_digits
      then Some (int (digits_value ds)) else None)"

text \<open>\<open>int(s)\<close> for a string \<open>s\<close>, base ten: white space around the literal is dropped;
  \<open>None\<close> stands for \<open>ValueError\<close>.\<close>

definition py_int :: "string \<Rightarrow> int option" where
  "py_int s = signed int_literal uminus (num_strip s)"

text \<open>\<open>s.zfill(width)\<close>: zeros on the left up to the width, after a leading sign.\<close>

definition zfill :: "nat \<Rightarrow> string \<Rightarrow> string" where
  "zfill width s =
     (if width \<le> length s then s
      else case s of
        [] \<Rightarrow> replicate width (CHR ''0'')
      | c # cs \<Rightarrow>
          if c = CHR ''+'' \<or> c = CHR ''-'' then c # replicate (width - length s) (CHR ''0'') @ cs
          else replicate (width - length s) (CHR ''0'') @ s)"

text \<open>
  A Python \<open>float\<close>.  A finite value is kept as the rational number that the decimal text
  denotes; Python stores the binary64 number nearest to it, and that rounding is not
  modelled.  What is modelled is the overflow: a text that denotes at least
  \<open>2^1024 - 2^970\<close>, the least number that rounds beyond the largest binary64 number,
  gives infinity.
\<close>

datatype pyfloat = Finite rat | Pos_inf | Neg_inf | Not_a_number

fun float_neg :: "pyfloat \<Rightarrow> pyfloat" where
  "float_neg (Finite q) = Finite (- q)"
| "float_neg Pos_inf = Neg_inf"
| "float_neg Neg_inf = Pos_inf"
| "float_neg Not_a_number = Not_a_number"

definition to_lower :: "char \<Rightarrow> char" where
  "to_lower c = (if 65 \<le> (of_char c :: nat) \<and> (of_char c :: nat) \<le> 90
                 then char_of ((of_char c :: nat) + 32) else c)"

text \<open>The exponent of a float literal, after the \<open>e\<close>: an optional sign and digits.\<close>

definition exponent_value :: "string \<Rightarrow> int option" where
  "exponent_value s =
     signed (\<lambda>ds. if digitpart_ok ds then Some (int (digits_value ds)) else None) uminus s"

text \<open>The part of a float literal before the exponent: digits, optionally a point and
  digits, with at least one digit on one side of the point.  The result is the value of all
  digits read as one integer and the number of digits after the point.\<close>

definition mantissa_value :: "string \<Rightarrow> (nat \<times> nat) option" where
  "mantissa_value s =
     (let ip = takeWhile (\<lambda>c. c \<noteq> CHR ''.'') s;
          rest = dropWhile (\<lambda>c. c \<noteq> CHR ''.'') s
      in case rest of
           [] \<Rightarrow> if digitpart_ok ip then Some (digits_value ip, 0) else None
         | dot # fp \<Rightarrow>
             if (ip = [] \<or> digitpart_ok ip) \<and> (fp = [] \<or> digitpart_ok fp) \<and> (ip \<noteq> [] \<or> fp \<noteq> [])
             then Some (digits_value (ip @ fp), length (filter is_digit fp))
             else None)"

definition scale10 :: "rat \<Rightarrow> int \<Rightarrow> rat" where
  "scale10 q e = (if 0 \<le> e then q * 10 ^ nat e else q / 10 ^ nat (- e))"

definition float_of_rat :: "rat \<Rightarrow> pyfloat" where
  "float_of_rat q = (if 2 ^ 1024 - 2 ^ 970 \<le> q then Pos_inf else Finite q)"

text \<open>An unsigned float literal: \<open>inf\<close>, \<open>infinity\<close> or \<open>nan\<close> in any case, or a decimal number
  with an optional exponent.\<close>

definition float_body :: "string \<Rightarrow> pyfloat option" where
  "float_body s =
     (let l = map to_lower s in
      if l = ''inf'' \<or> l = ''infinity'' then Some Pos_inf
      else if l = ''nan'' then Some Not_a_number
      else
        let m = takeWhile (\<lambda>c. c \<noteq> CHR ''e'' \<and> c \<noteq> CHR ''E'') s;
            e = dropWhile (\<lambda>c. c \<noteq> CHR ''e'' \<and> c \<noteq> CHR ''E'') s
        in case mantissa_value m of
             None \<Rightarrow> None
           | Some (digits, places) \<Rightarrow>
               (case (if e = [] then Some 0 else exponent_value (tl e)) of
                  None \<Rightarrow> None
                | Some ex \<Rightarrow> Some (float_of_rat (scale10 (of_nat digits) (ex - int places)))))"

text \<open>\<open>float(s)\<close> for a string \<open>s\<close>; \<open>None\<close> stands for \<open>ValueError\<close>.  The number of
  digits is not limited.\<close>

definition py_float :: "string \<Rightarrow> pyfloat option" where
  "py_float s = signed float_body float_neg (num_strip s)"

section \<open>The series reshaper (reshape_and_plot.py)\<close>

subsection \<open>The data frame read from the wide CSV\<close>

text \<open>
  \<open>pd.read_csv(CSV_IN, dtype=str)\<close> gives a frame whose cells are strings or the missing
  value NaN.  A row of the frame (a \<open>Series\<close>) maps column names to cells.
\<close>

datatype cell = NaN | Str string

type_synonym series = "string \<rightharpoonup> cell"

type_synonym dataframe = "series list"

text \<open>The texts that \<open>read_csv\<close> reads as a missing value by default.\<close>

definition na_values :: "string list" where
  "na_values =
     ['''', ''#N/A'', ''#N/A N/A'', ''#NA'', ''-1.#IND'', ''-1.#QNAN'', ''-NaN'', ''-nan'',
      ''1.#IND'', ''1.#QNAN'', ''<NA>'', ''N/A'', ''NA'', ''NULL'', ''NaN'', ''None'', ''n/a'',
      ''nan'', ''null'']"

definition read_cell :: "string \<Rightarrow> cell" where
  "read_cell s = (if s \<in> set na_values then NaN else Str s)"

definition expected :: "string list" where
  "expected = [''month'', ''day'', ''t1'', ''h1'', ''t2'', ''h2'', ''t3'', ''h3'', ''t4'', ''h4'']"

text \<open>The frame that \<open>read_csv\<close> builds from the file \<open>write_csv\<close> wrote: the fixed header and
  one line for each row of at most ten fields.  A row of no field is written as an empty
  line, which \<open>read_csv\<close> skips; a row of fewer than ten fields leaves the other columns
  without a value, which is NaN in the frame.\<close>

definition series_of_row :: "string list \<Rightarrow> series" where
  "series_of_row row = map_of (zip expected (map read_cell row))"

definition read_csv :: "string list list \<Rightarrow> dataframe" where
  "read_csv rows = map series_of_row (filter (\<lambda>row. row \<noteq> []) rows)"

text \<open>The loop that adds every expected column the file did not have, filled with NaN;
  here for one row of the frame, and for the frame.\<close>

definition ensure_row :: "series \<Rightarrow> series" where
  "ensure_row r = fold (\<lambda>c r. if r c = None then r(c \<mapsto> NaN) else r) expected r"

definition ensure_columns :: "dataframe \<Rightarrow> dataframe" where
  "ensure_columns df = map ensure_row df"

subsection \<open>Exceptions, timestamps and readings\<close>

datatype error = ValueError | KeyError | OverflowError

text \<open>\<open>int(v)\<close> for a cell of the frame: the float NaN cannot be converted.\<close>

definition int_of_cell :: "cell \<Rightarrow> error + int" where
  "int_of_cell v =
     (case v of
        NaN \<Rightarrow> Inl ValueError
      | Str s \<Rightarrow> (case py_int s of None \<Rightarrow> Inl ValueError | Some n \<Rightarrow> Inr n))"

text \<open>\<open>r[col]\<close>\<close>

definition getitem :: "series \<Rightarrow> string \<Rightarrow> error + cell" where
  "getitem r col = (case r col of None \<Rightarrow> Inl KeyError | Some v \<Rightarrow> Inr v)"

text \<open>\<open>r.get(col, default)\<close>\<close>

definition get :: "series \<Rightarrow> string \<Rightarrow> cell \<Rightarrow> cell" where
  "get r col dflt = (case r col of None \<Rightarrow> dflt | Some v \<Rightarrow> v)"

text \<open>\<open>pd.isna(v)\<close> and \<open>str(v)\<close> for a cell\<close>

fun isna :: "cell \<Rightarrow> bool" where
  "isna NaN = True"
| "isna (Str s) = False"

fun str :: "cell \<Rightarrow> string" where
  "str NaN = ''nan''"
| "str (Str s) = s"

record timestamp =
  ts_year :: int
  ts_month :: int
  ts_day :: int
  ts_hour :: int
  ts_minute :: int

definition is_leap :: "int \<Rightarrow> bool" where
  "is_leap y = (y mod 4 = 0 \<and> (y mod 100 \<noteq> 0 \<or> y mod 400 = 0))"

definition days_in_month :: "int \<Rightarrow> int \<Rightarrow> int" where
  "days_in_month y m =
     (if m = 2 then (if is_leap y then 29 else 28)
      else if m = 4 \<or> m = 6 \<or> m = 9 \<or> m = 11 then 30 else 31)"

definition fits_c_int :: "int \<Rightarrow> bool" where
  "fits_c_int n = (- 2147483648 \<le> n \<and> n \<le> 2147483647)"

text \<open>\<open>pd.Timestamp(year=, month=, day=, hour=, minute=)\<close>: the fields are checked as
  \<open>datetime\<close> checks them, and a field that is out of range raises.  (The reshaper passes the
  year 2023 only; the bounds pandas puts on the year are not modelled.)\<close>

definition Timestamp :: "int \<Rightarrow> int \<Rightarrow> int \<Rightarrow> int \<Rightarrow> int \<Rightarrow> error + timestamp" where
  "Timestamp y m d hh mm =
     (if \<not> list_all fits_c_int [y, m, d, hh, mm] then Inl OverflowError
      else if y < 1 \<or> 9999 < y then Inl ValueError
      else if m < 1 \<or> 12 < m then Inl ValueError
      else if d < 1 \<or> days_in_month y m < d then Inl ValueError
      else if hh < 0 \<or> 23 < hh then Inl ValueError
      else if mm < 0 \<or> 59 < mm then Inl ValueError
      else Inr \<lparr>ts_year = y, ts_month = m, ts_day = d, ts_hour = hh, ts_minute = mm\<rparr>)"

text \<open>Timestamps are ordered by time: lexicographically on their fields.\<close>

definition ts_key :: "timestamp \<Rightarrow> int \<times> int \<times> int \<times> int \<times> int" where
  "ts_key t = (ts_year t, ts_month t, ts_day t, ts_hour t, ts_minute t)"

text \<open>One row of the long table, with the columns of the output.\<close>

record reading =
  datetime :: timestamp
  tide_m :: pyfloat
  pair :: nat
  month :: int
  day :: int

subsection \<open>The melt loop\<close>

text \<open>\<open>str(n)\<close> for a natural number \<open>n\<close>: its decimal digits.\<close>

definition digit_char :: "nat \<Rightarrow> char" where
  "digit_char d = ''0123456789'' ! d"

function str_nat :: "nat \<Rightarrow> string" where
  "str_nat n = (if n < 10 then [digit_char n] else str_nat (n div 10) @ [digit_char (n mod 10)])"
  by pat_completeness auto
termination
  by (relation "measure id") auto

declare str_nat.simps [simp del]

text \<open>The column names \<open>f't{i}'\<close> and \<open>f'h{i}'\<close>.\<close>

definition t_col :: "nat \<Rightarrow> string" where
  "t_col i = CHR ''t'' # str_nat i"

definition h_col :: "nat \<Rightarrow> string" where
  "h_col i = CHR ''h'' # str_nat i"

text \<open>
  The body of the loop over the four slots of a row, for the slot \<open>i\<close>: \<open>Inr None\<close> is a
  \<open>continue\<close>, \<open>Inr (Some rd)\<close> the reading that is appended, \<open>Inl e\<close> an exception that
  nothing catches.  The two \<open>int\<close> calls stand in one \<open>try\<close>, the \<open>float\<close> call in another; the
  construction of the timestamp stands between them, in neither.
\<close>

definition melt_slot :: "int \<Rightarrow> int \<Rightarrow> series \<Rightarrow> nat \<Rightarrow> error + reading option" where
  "melt_slot mth dy r i =
     (let t = get r (t_col i) (Str []);
          h = get r (h_col i) (Str [])
      in if isna t \<or> strip (str t) = [] then Inr None
         else if isna h \<or> strip (str h) = [] then Inr None
         else let t_str = zfill 4 (str t) in
           case py_int (take 2 t_str) of
             None \<Rightarrow> Inr None
           | Some hour \<Rightarrow>
               (case py_int (drop 2 t_str) of
                  None \<Rightarrow> Inr None
                | Some minute \<Rightarrow>
                    (case Timestamp 2023 mth dy hour minute of
                       Inl e \<Rightarrow> Inl e
                     | Inr dt \<Rightarrow>
                         (case py_float (strip (str h)) of
                            None \<Rightarrow> Inr None
                          | Some h_val \<Rightarrow>
                              Inr (Some \<lparr>datetime = dt, tide_m = h_val, pair = i,
                                         month = mth, day = dy\<rparr>)))))"

text \<open>The loop \<open>for i in range(1,5)\<close> over a row, appending to \<open>rows\<close>.\<close>

fun melt_slots :: "int \<Rightarrow> int \<Rightarrow> series \<Rightarrow> nat list \<Rightarrow> reading list \<Rightarrow> error + reading list" where
  "melt_slots mth dy r [] rows = Inr rows"
| "melt_slots mth dy r (i # is) rows =
     (case melt_slot mth dy r i of
        Inl e \<Rightarrow> Inl e
      | Inr None \<Rightarrow> melt_slots mth dy r is rows
      | Inr (Some rd) \<Rightarrow> melt_slots mth dy r is (rows @ [rd]))"

text \<open>The body of the loop over the rows of the frame: month and day are converted before
  any slot is looked at, outside every \<open>try\<close>.\<close>

definition melt_row :: "series \<Rightarrow> reading list \<Rightarrow> error + reading list" where
  "melt_row r rows =
     (case getitem r ''month'' of
        Inl e \<Rightarrow> Inl e
      | Inr mv \<Rightarrow>
          (case int_of_cell mv of
             Inl e \<Rightarrow> Inl e
           | Inr mth \<Rightarrow>
               (case getitem r ''day'' of
                  Inl e \<Rightarrow> Inl e
                | Inr dv \<Rightarrow>
                    (case int_of_cell dv of
                       Inl e \<Rightarrow> Inl e
                     | Inr dy \<Rightarrow> melt_slots mth dy r [1, 2, 3, 4] rows))))"

text \<open>The loop \<open>for _, r in df.iterrows()\<close>.\<close>

fun melt :: "dataframe \<Rightarrow> reading list \<Rightarrow> error + reading list" where
  "melt [] rows = Inr rows"
| "melt (r # df) rows =
     (case melt_row r rows of
        Inl e \<Rightarrow> Inl e
      | Inr rows' \<Rightarrow> melt df rows')"

subsection \<open>Sorting and writing\<close>

text \<open>
  \<open>long.sort_values('datetime')\<close> sorts with the default \<open>kind='quicksort'\<close>, which pandas
  documents as not stable.  It is numpy's quicksort on the positions of the rows: a frame
  of up to 16 rows is sorted by insertion alone, which moves a row only past rows with a
  greater key and so keeps rows with equal keys in their order; a longer frame is first
  partitioned around pivots, which does not keep that order.  The partitioning is not
  modelled step by step: for a longer frame the model admits every arrangement of the
  same rows with keys that do not decrease, the one the code leaves among them.  Sorting is
  therefore a relation between the frame and its sorted copy, and what is proved of every
  sorted copy the relation admits holds of the one the code leaves.
\<close>

definition sort_values :: "reading list \<Rightarrow> reading list \<Rightarrow> bool" where
  "sort_values long long' =
     (if length long \<le> 16 then long' = sort_key (\<lambda>rd. ts_key (datetime rd)) long
      else mset long' = mset long \<and> sorted (map (\<lambda>rd. ts_key (datetime rd)) long'))"

text \<open>
  The whole script up to \<open>to_csv\<close>, as a relation between the frame read and what the run
  leaves behind: \<open>Inl e\<close> is an uncaught exception, with no file written; \<open>Inr long\<close> is the
  CSV file written with these rows.  A frame built from an empty list of rows has no
  column, so that \<open>sort_values('datetime')\<close> raises \<open>KeyError\<close>.
\<close>

definition reshape_and_plot :: "dataframe \<Rightarrow> error + reading list \<Rightarrow> bool" where
  "reshape_and_plot df out =
     (case melt (ensure_columns df) [] of
        Inl e \<Rightarrow> out = Inl e
      | Inr rows \<Rightarrow>
          if rows = [] then out = Inl KeyError
          else (case out of Inl e \<Rightarrow> False | Inr long \<Rightarrow> sort_values rows long))"

section \<open>Auxiliary predicates used in the statements\<close>

text \<open>A list of words as \<open>split()\<close> returns them: each non-empty and free of white space.\<close>

definition words_ok :: "string list \<Rightarrow> bool" where
  "words_ok ws = list_all (\<lambda>w. w \<noteq> [] \<and> list_all (\<lambda>c. \<not> isspace c) w) ws"

text \<open>Two spaces next to each other somewhere in the string.\<close>

fun double_space :: "string \<Rightarrow> bool" where
  "double_space (a # b # cs) = ((a = CHR '' '' \<and> b = CHR '' '') \<or> double_space (b # cs))"
| "double_space _ = False"

text \<open>A table row that the extractor keeps: no header cell below it and at least two data
  cells.\<close>

definition keep_tr :: "node \<Rightarrow> bool" where
  "keep_tr tr = (xpath_desc ''th'' tr = [] \<and> 2 \<le> length (xpath_desc ''td'' tr))"

text \<open>The ten fields of a kept row: its normalised cells, filled up with empty strings or cut
  after the tenth.\<close>

definition row10_of :: "node \<Rightarrow> string list" where
  "row10_of tr =
     (let cells = cells_of (xpath_desc ''td'' tr)
      in take 10 (cells @ replicate (10 - length cells) []))"

text \<open>A clock time as the wide table writes it: one to four digits that, filled up with
  zeros to four, give an hour below 24 in the first two and a minute below 60 in the last
  two.\<close>

definition valid_time :: "string \<Rightarrow> bool" where
  "valid_time T =
     (T \<noteq> [] \<and> length T \<le> 4 \<and> list_all is_digit T
      \<and> digits_value (take 2 (zfill 4 T)) < 24 \<and> digits_value (drop 2 (zfill 4 T)) < 60)"

text \<open>A height as the wide table writes it: an optional minus sign, digits, and optionally
  a point followed by digits.\<close>

definition unsigned_decimal :: "string \<Rightarrow> bool" where
  "unsigned_decimal H =
     (let ip = takeWhile is_digit H; rest = dropWhile is_digit H
      in ip \<noteq> [] \<and> (rest = [] \<or> (hd rest = CHR ''.'' \<and> tl rest \<noteq> [] \<and> list_all is_digit (tl rest))))"

definition decimal_string :: "string \<Rightarrow> bool" where
  "decimal_string H =
     (case H of [] \<Rightarrow> False | c # D \<Rightarrow> if c = CHR ''-'' then unsigned_decimal D else unsigned_decimal H)"

text \<open>Month and day texts of a wide row that stands for a calendar day of 2023: digits
  only, no more of them than \<open>int\<close> takes, naming a month and a day that this month has.\<close>

definition calendar_day :: "string \<Rightarrow> string \<Rightarrow> bool" where
  "calendar_day mm dd =
     (mm \<noteq> [] \<and> dd \<noteq> [] \<and> list_all is_digit mm \<and> list_all is_digit dd
      \<and> length mm \<le> max_str_digits \<and> length dd \<le> max_str_digits
      \<and> 1 \<le> digits_value mm \<and> digits_value mm \<le> 12
      \<and> 1 \<le> digits_value dd \<and> int (digits_value dd) \<le> days_in_month 2023 (int (digits_value mm)))"

text \<open>A cell with nothing in it: the column is missing, the value is NaN, or the text is
  empty or white space only.\<close>

definition blank :: "cell option \<Rightarrow> bool" where
  "blank v = (case v of None \<Rightarrow> True | Some NaN \<Rightarrow> True | Some (Str s) \<Rightarrow> list_all isspace s)"

text \<open>The characters a height text is made of.\<close>

definition decimal_char :: "char \<Rightarrow> bool" where
  "decimal_char c = (is_digit c \<or> c = CHR ''.'' \<or> c = CHR ''-'')"


text \<open>A wide row with four valid pairs: ten fields, month and day of a calendar day, and
  in each of the four slots a valid time and a height.\<close>

definition valid_wide_row :: "string list \<Rightarrow> bool" where
  "valid_wide_row row =
     (length row = 10 \<and> calendar_day (row ! 0) (row ! 1)
      \<and> list_all (\<lambda>i. valid_time (row ! (2 * i)) \<and> decimal_string (row ! (2 * i + 1))) [1, 2, 3, 4])"

text \<open>The wide row with the pair \<open>(T, H)\<close> in slot \<open>k\<close> and the three other pairs blank.\<close>

definition one_pair_row :: "string \<Rightarrow> string \<Rightarrow> nat \<Rightarrow> string \<Rightarrow> string \<Rightarrow> string list" where
  "one_pair_row mm dd k T H =
     [mm, dd] @ concat (map (\<lambda>i. if i = k then [T, H] else [[], []]) [1, 2, 3, 4])"

text \<open>The document with one table whose rows have the given texts in their data cells.\<close>

definition td_of :: "string \<Rightarrow> node" where
  "td_of s = Element ''td'' [Text s]"

definition tr_of :: "string list \<Rightarrow> node" where
  "tr_of row = Element ''tr'' (map td_of row)"

definition table_of :: "string list list \<Rightarrow> node" where
  "table_of rows = Element ''table'' (map tr_of rows)"

text \<open>A month or day cell that \<open>int\<close> rejects: the column is missing, the value is NaN, or
  the text is not an integer literal.\<close>

definition not_integer :: "cell option \<Rightarrow> bool" where
  "not_integer v = (case v of Some (Str s) \<Rightarrow> py_int s = None | _ \<Rightarrow> True)"

text \<open>The month and day of a row as the melt loop converts them, before it looks at any
  slot.\<close>

definition month_day :: "series \<Rightarrow> error + int \<times> int" where
  "month_day r =
     (case getitem r ''month'' of
        Inl e \<Rightarrow> Inl e
      | Inr mv \<Rightarrow>
          (case int_of_cell mv of
             Inl e \<Rightarrow> Inl e
           | Inr mth \<Rightarrow>
               (case getitem r ''day'' of
                  Inl e \<Rightarrow> Inl e
                | Inr dv \<Rightarrow>
                    (case int_of_cell dv of
                       Inl e \<Rightarrow> Inl e
                     | Inr dy \<Rightarrow> Inr (mth, dy)))))"

text \<open>The example row of the specification and the four readings it stands for.\<close>

abbreviation example_row :: "string list" where
  "example_row \<equiv>
     [''03'', ''15'', ''0531'', ''1.2'', ''1145'', ''0.4'', ''1758'', ''1.5'', ''2310'', ''0.3'']"

abbreviation example_readings :: "reading list" where
  "example_readings \<equiv>
     [\<lparr>datetime = \<lparr>ts_year = 2023, ts_month = 3, ts_day = 15, ts_hour = 5, ts_minute = 31\<rparr>,
        tide_m = Finite (12 / 10), pair = 1, month = 3, day = 15\<rparr>,
      \<lparr>datetime = \<lparr>ts_year = 2023, ts_month = 3, ts_day = 15, ts_hour = 11, ts_minute = 45\<rparr>,
        tide_m = Finite (4 / 10), pair = 2, month = 3, day = 15\<rparr>,
      \<lparr>datetime = \<lparr>ts_year = 2023, ts_month = 3, ts_day = 15, ts_hour = 17, ts_minute = 58\<rparr>,
        tide_m = Finite (15 / 10), pair = 3, month = 3, day = 15\<rparr>,
      \<lparr>datetime = \<lparr>ts_year = 2023, ts_month = 3, ts_day = 15, ts_hour = 23, ts_minute = 10\<rparr>,
        tide_m = Finite (3 / 10), pair = 4, month = 3, day = 15\<rparr>]"

text \<open>Five wide rows for the same day whose twenty pairs all have the time 05:31, and the
  readings they stand for, in the order of rows and slots.\<close>

abbreviation tied_rows :: "string list list" where
  "tied_rows \<equiv>
     [[''03'', ''15'', ''0531'', ''1.1'', ''0531'', ''1.2'', ''0531'', ''1.3'', ''0531'', ''1.4''],
      [''03'', ''15'', ''0531'', ''2.1'', ''0531'', ''2.2'', ''0531'', ''2.3'', ''0531'', ''2.4''],
      [''03'', ''15'', ''0531'', ''3.1'', ''0531'', ''3.2'', ''0531'', ''3.3'', ''0531'', ''3.4''],
      [''03'', ''15'', ''0531'', ''4.1'', ''0531'', ''4.2'', ''0531'', ''4.3'', ''0531'', ''4.4''],
      [''03'', ''15'', ''0531'', ''5.1'', ''0531'', ''5.2'', ''0531'', ''5.3'', ''0531'', ''5.4'']]"

abbreviation tied_readings :: "reading list" where
  "tied_readings \<equiv>
     [\<lparr>datetime = \<lparr>ts_year = 2023, ts_month = 3, ts_day = 15, ts_hour = 5, ts_minute = 31\<rparr>,
        tide_m = Finite (11 / 10), pair = 1, month = 3, day = 15\<rparr>,
      \<lparr>datetime = \<lparr>ts_year = 2023, ts_month = 3, ts_day = 15, ts_hour = 5, ts_minute = 31\<rparr>,
        tide_m = Finite (12 / 10), pair = 2, month = 3, day = 15\<rparr>,
      \<lparr>datetime = \<lparr>ts_year = 2023, ts_month = 3, ts_day = 15, ts_hour = 5, ts_minute = 31\<rparr>,
        tide_m = Finite (13 / 10), pair = 3, month = 3, day = 15\<rparr>,
      \<lparr>datetime = \<lparr>ts_year = 2023, ts_month = 3, ts_day = 15, ts_hour = 5, ts_minute = 31\<rparr>,
        tide_m = Finite (14 / 10), pair = 4, month = 3, day = 15\<rparr>,
      \<lparr>datetime = \<lparr>ts_year = 2023, ts_month = 3, ts_day = 15, ts_hour = 5, ts_minute = 31\<rparr>,
        tide_m = Finite (21 / 10), pair = 1, month = 3, day = 15\<rparr>,
      \<lparr>datetime = \<lparr>ts_year = 2023, ts_month = 3, ts_day = 15, ts_hour = 5, ts_minute = 31\<rparr>,
        tide_m = Finite (22 / 10), pair = 2, month = 3, day = 15\<rparr>,
      \<lparr>datetime = \<lparr>ts_year = 2023, ts_month = 3, ts_day = 15, ts_hour = 5, ts_minute = 31\<rparr>,
        tide_m = Finite (23 / 10), pair = 3, month = 3, day = 15\<rparr>,
      \<lparr>datetime = \<lparr>ts_year = 2023, ts_month = 3, ts_day = 15, ts_hour = 5, ts_minute = 31\<rparr>,
        tide_m = Finite (24 / 10), pair = 4, month = 3, day = 15\<rparr>,
      \<lparr>datetime = \<lparr>ts_year = 2023, ts_month = 3, ts_day = 15, ts_hour = 5, ts_minute = 31\<rparr>,
        tide_m = Finite (31 / 10), pair = 1, month = 3, day = 15\<rparr>,
      \<lparr>datetime = \<lparr>ts_year = 2023, ts_month = 3, ts_day = 15, ts_hour = 5, ts_minute = 31\<rparr>,
        tide_m = Finite (32 / 10), pair = 2, month = 3, day = 15\<rparr>,
      \<lparr>datetime = \<lparr>ts_year = 2023, ts_month = 3, ts_day = 15, ts_hour = 5, ts_minute = 31\<rparr>,
        tide_m = Finite (33 / 10), pair = 3, month = 3, day = 15\<rparr>,
      \<lparr>datetime = \<lparr>ts_year = 2023, ts_month = 3, ts_day = 15, ts_hour = 5, ts_minute = 31\<rparr>,
        tide_m = Finite (34 / 10), pair = 4, month = 3, day = 15\<rparr>,
      \<lparr>datetime = \<lparr>ts_year = 2023, ts_month = 3, ts_day = 15, ts_hour = 5, ts_minute = 31\<rparr>,
        tide_m = Finite (41 / 10), pair = 1, month = 3, day = 15\<rparr>,
      \<lparr>datetime = \<lparr>ts_year = 2023, ts_month = 3, ts_day = 15, ts_hour = 5, ts_minute = 31\<rparr>,
        tide_m = Finite (42 / 10), pair = 2, month = 3, day = 15\<rparr>,
      \<lparr>datetime = \<lparr>ts_year = 2023, ts_month = 3, ts_day = 15, ts_hour = 5, ts_minute = 31\<rparr>,
        tide_m = Finite (43 / 10), pair = 3, month = 3, day = 15\<rparr>,
      \<lparr>datetime = \<lparr>ts_year = 2023, ts_month = 3, ts_day = 15, ts_hour = 5, ts_minute = 31\<rparr>,
        tide_m = Finite (44 / 10), pair = 4, month = 3, day = 15\<rparr>,
      \<lparr>datetime = \<lparr>ts_year = 2023, ts_month = 3, ts_day = 15, ts_hour = 5, ts_minute = 31\<rparr>,
        tide_m = Finite (51 / 10), pair = 1, month = 3, day = 15\<rparr>,
      \<lparr>datetime = \<lparr>ts_year = 2023, ts_month = 3, ts_day = 15, ts_hour = 5, ts_minute = 31\<rparr>,
        tide_m = Finite (52 / 10), pair = 2, month = 3, day = 15\<rparr>,
      \<lparr>datetime = \<lparr>ts_year = 2023, ts_month = 3, ts_day = 15, ts_hour = 5, ts_minute = 31\<rparr>,
        tide_m = Finite (53 / 10), pair = 3, month = 3, day = 15\<rparr>,
      \<lparr>datetime = \<lparr>ts_year = 2023, ts_month = 3, ts_day = 15, ts_hour = 5, ts_minute = 31\<rparr>,
        tide_m = Finite (54 / 10), pair = 4, month = 3, day = 15\<rparr>]"

text \<open>The same twenty readings in the order in which numpy's quicksort leaves their
  positions: 0, 17, 16, and so on down to 1, then 18 and 19.\<close>

abbreviation tied_quicksorted :: "reading list" where
  "tied_quicksorted \<equiv>
     [\<lparr>datetime = \<lparr>ts_year = 2023, ts_month = 3, ts_day = 15, ts_hour = 5, ts_minute = 31\<rparr>,
        tide_m = Finite (11 / 10), pair = 1, month = 3, day = 15\<rparr>,
      \<lparr>datetime = \<lparr>ts_year = 2023, ts_month = 3, ts_day = 15, ts_hour = 5, ts_minute = 31\<rparr>,
        tide_m = Finite (52 / 10), pair = 2, month = 3, day = 15\<rparr>,
      \<lparr>datetime = \<lparr>ts_year = 2023, ts_month = 3, ts_day = 15, ts_hour = 5, ts_minute = 31\<rparr>,
        tide_m = Finite (51 / 10), pair = 1, month = 3, day = 15\<rparr>,
      \<lparr>datetime = \<lparr>ts_year = 2023, ts_month = 3, ts_day = 15, ts_hour = 5, ts_minute = 31\<rparr>,
        tide_m = Finite (44 / 10), pair = 4, month = 3, day = 15\<rparr>,
      \<lparr>datetime = \<lparr>ts_year = 2023, ts_month = 3, ts_day = 15, ts_hour = 5, ts_minute = 31\<rparr>,
        tide_m = Finite (43 / 10), pair = 3, month = 3, day = 15\<rparr>,
      \<lparr>datetime = \<lparr>ts_year = 2023, ts_month = 3, ts_day = 15, ts_hour = 5, ts_minute = 31\<rparr>,
        tide_m = Finite (42 / 10), pair = 2, month = 3, day = 15\<rparr>,
      \<lparr>datetime = \<lparr>ts_year = 2023, ts_month = 3, ts_day = 15, ts_hour = 5, ts_minute = 31\<rparr>,
        tide_m = Finite (41 / 10), pair = 1, month = 3, day = 15\<rparr>,
      \<lparr>datetime = \<lparr>ts_year = 2023, ts_month = 3, ts_day = 15, ts_hour = 5, ts_minute = 31\<rparr>,
        tide_m = Finite (34 / 10), pair = 4, month = 3, day = 15\<rparr>,
      \<lparr>datetime = \<lparr>ts_year = 2023, ts_month = 3, ts_day = 15, ts_hour = 5, ts_minute = 31\<rparr>,
        tide_m = Finite (33 / 10), pair = 3, month = 3, day = 15\<rparr>,
      \<lparr>datetime = \<lparr>ts_year = 2023, ts_month = 3, ts_day = 15, ts_hour = 5, ts_minute = 31\<rparr>,
        tide_m = Finite (32 / 10), pair = 2, month = 3, day = 15\<rparr>,
      \<lparr>datetime = \<lparr>ts_year = 2023, ts_month = 3, ts_day = 15, ts_hour = 5, ts_minute = 31\<rparr>,
        tide_m = Finite (31 / 10), pair = 1, month = 3, day = 15\<rparr>,
      \<lparr>datetime = \<lparr>ts_year = 2023, ts_month = 3, ts_day = 15, ts_hour = 5, ts_minute = 31\<rparr>,
        tide_m = Finite (24 / 10), pair = 4, month = 3, day = 15\<rparr>,
      \<lparr>datetime = \<lparr>ts_year = 2023, ts_month = 3, ts_day = 15, ts_hour = 5, ts_minute = 31\<rparr>,
        tide_m = Finite (23 / 10), pair = 3, month = 3, day = 15\<rparr>,
      \<lparr>datetime = \<lparr>ts_year = 2023, ts_month = 3, ts_day = 15, ts_hour = 5, ts_minute = 31\<rparr>,
        tide_m = Finite (22 / 10), pair = 2, month = 3, day = 15\<rparr>,
      \<lparr>datetime = \<lparr>ts_year = 2023, ts_month = 3, ts_day = 15, ts_hour = 5, ts_minute = 31\<rparr>,
        tide_m = Finite (21 / 10), pair = 1, month = 3, day = 15\<rparr>,
      \<lparr>datetime = \<lparr>ts_year = 2023, ts_month = 3, ts_day = 15, ts_hour = 5, ts_minute = 31\<rparr>,
        tide_m = Finite (14 / 10), pair = 4, month = 3, day = 15\<rparr>,
      \<lparr>datetime = \<lparr>ts_year = 2023, ts_month = 3, ts_day = 15, ts_hour = 5, ts_minute = 31\<rparr>,
        tide_m = Finite (13 / 10), pair = 3, month = 3, day = 15\<rparr>,
      \<lparr>datetime = \<lparr>ts_year = 2023, ts_month = 3, ts_day = 15, ts_hour = 5, ts_minute = 31\<rparr>,
        tide_m = Finite (12 / 10), pair = 2, month = 3, day = 15\<rparr>,
      \<lparr>datetime = \<lparr>ts_year = 2023, ts_month = 3, ts_day = 15, ts_hour = 5, ts_minute = 31\<rparr>,
        tide_m = Finite (53 / 10), pair = 3, month = 3, day = 15\<rparr>,
      \<lparr>datetime = \<lparr>ts_year = 2023, ts_month = 3, ts_day = 15, ts_hour = 5, ts_minute = 31\<rparr>,
        tide_m = Finite (54 / 10), pair = 4, month = 3, day = 15\<rparr>]"

text \<open>Two wide rows in the wrong order of their days, each with its later time first, and
  their four readings in the order of time.\<close>

abbreviation unordered_rows :: "string list list" where
  "unordered_rows \<equiv>
     [[''03'', ''16'', ''1830'', ''1.6'', ''0601'', ''1.3'', [], [], [], []],
      [''03'', ''15'', ''2310'', ''0.3'', ''0531'', ''1.2'', [], [], [], []]]"

abbreviation ordered_readings :: "reading list" where
  "ordered_readings \<equiv>
     [\<lparr>datetime = \<lparr>ts_year = 2023, ts_month = 3, ts_day = 15, ts_hour = 5, ts_minute = 31\<rparr>,
        tide_m = Finite (12 / 10), pair = 2, month = 3, day = 15\<rparr>,
      \<lparr>datetime = \<lparr>ts_year = 2023, ts_month = 3, ts_day = 15, ts_hour = 23, ts_minute = 10\<rparr>,
        tide_m = Finite (3 / 10), pair = 1, month = 3, day = 15\<rparr>,
      \<lparr>datetime = \<lparr>ts_year = 2023, ts_month = 3, ts_day = 16, ts_hour = 6, ts_minute = 1\<rparr>,
        tide_m = Finite (13 / 10), pair = 2, month = 3, day = 16\<rparr>,
      \<lparr>datetime = \<lparr>ts_year = 2023, ts_month = 3, ts_day = 16, ts_hour = 18, ts_minute = 30\<rparr>,
        tide_m = Finite (16 / 10), pair = 1, month = 3, day = 16\<rparr>]"
















section \<open>Evaluation on concrete inputs\<close>

lemma str_nat_digit: "n < 10 \<Longrightarrow> str_nat n = [digit_char n]"
  by (subst str_nat.simps) simp

lemmas time_eval = valid_time_def zfill_def digits_value_def digit_val_def is_digit_def

lemmas row_eval = valid_wide_row_def calendar_day_def max_str_digits_def days_in_month_def is_leap_def
  decimal_string_def unsigned_decimal_def time_eval

lemmas strip_eval = strip_def lstrip_def rstrip_def isspace_def

lemmas num_eval = num_strip_def num_space_def signed_def digits_value_def digit_val_def
  is_digit_def

lemmas float_eval = py_float_def num_eval strip_eval float_body_def mantissa_value_def
  exponent_value_def scale10_def float_of_rat_def to_lower_def

lemmas int_eval = py_int_def int_literal_def max_str_digits_def num_eval

lemmas frame_eval = read_csv_def series_of_row_def expected_def read_cell_def na_values_def
  ensure_columns_def ensure_row_def

lemmas melt_eval = frame_eval melt_row_def getitem_def int_of_cell_def int_eval melt_slot_def
  get_def t_col_def h_col_def str_nat_digit digit_char_def zfill_def Timestamp_def fits_c_int_def
  days_in_month_def is_leap_def float_eval
section \<open>Properties of the string functions\<close>

lemma isspace_space: "isspace (CHR '' '')"
  by (simp add: isspace_def)

lemma isspace_nbsp: "isspace (CHR 0xA0)"
  by (simp add: isspace_def)

lemma takeWhile_all: "list_all P (takeWhile P xs)"
  by (induction xs) auto

lemma takeWhile_append_nil: "xs \<noteq> [] \<Longrightarrow> takeWhile P xs = [] \<Longrightarrow> takeWhile P (xs @ ys) = []"
  by (cases xs) (auto split: if_splits)

lemma dropWhile_id: "takeWhile P xs = [] \<Longrightarrow> dropWhile P xs = xs"
  by (cases xs) (auto split: if_splits)

lemma words_ok_Cons:
  "words_ok (w # ws) = (w \<noteq> [] \<and> list_all (\<lambda>c. \<not> isspace c) w \<and> words_ok ws)"
  by (simp add: words_ok_def)

text \<open>Every piece returned by \<open>split()\<close> is non-empty and free of white space.\<close>

lemma split_ws_words_ok: "words_ok (split_ws s)"
proof (induction s rule: split_ws.induct)
  case 1
  then show ?case by (simp add: words_ok_def)
next
  case (2 c cs)
  show ?case
  proof (cases "isspace c")
    case True
    with 2 show ?thesis by simp
  next
    case False
    with 2 have "words_ok (split_ws (dropWhile (\<lambda>x. \<not> isspace x) cs))" by simp
    with False show ?thesis by (simp add: words_ok_def takeWhile_all)
  qed
qed

lemma split_ws_append_word:
  assumes "w \<noteq> []" "list_all (\<lambda>c. \<not> isspace c) w"
  shows "split_ws (w @ CHR '' '' # s) = w # split_ws s"
proof -
  obtain c cs where w: "w = c # cs" using assms(1) by (cases w) auto
  have c: "\<not> isspace c" and cs: "list_all (\<lambda>c. \<not> isspace c) cs" using assms(2) w by auto
  have t: "takeWhile (\<lambda>x. \<not> isspace x) (cs @ CHR '' '' # s) = cs"
    using cs by (induction cs) (auto simp: isspace_space)
  have d: "dropWhile (\<lambda>x. \<not> isspace x) (cs @ CHR '' '' # s) = CHR '' '' # s"
    using cs by (induction cs) (auto simp: isspace_space)
  show ?thesis using c by (simp add: w t d isspace_space)
qed

lemma split_ws_word:
  assumes "w \<noteq> []" "list_all (\<lambda>c. \<not> isspace c) w"
  shows "split_ws w = [w]"
proof -
  obtain c cs where w: "w = c # cs" using assms(1) by (cases w) auto
  have c: "\<not> isspace c" and cs: "list_all (\<lambda>c. \<not> isspace c) cs" using assms(2) w by auto
  have t: "takeWhile (\<lambda>x. \<not> isspace x) cs = cs"
    using cs by (induction cs) auto
  have d: "dropWhile (\<lambda>x. \<not> isspace x) cs = []"
    using cs by (induction cs) auto
  show ?thesis using c by (simp add: w t d)
qed

text \<open>Splitting what \<open>' '.join\<close> built from such pieces gives the pieces back.\<close>

lemma split_ws_join: "words_ok ws \<Longrightarrow> split_ws (join '' '' ws) = ws"
proof (induction "'' ''" ws rule: join.induct)
  case 1
  then show ?case by simp
next
  case (2 w)
  then show ?case by (simp add: words_ok_def split_ws_word)
next
  case (3 w v ws)
  then show ?case by (simp add: words_ok_def split_ws_append_word)
qed

lemma join_nonempty: "words_ok ws \<Longrightarrow> ws \<noteq> [] \<Longrightarrow> join sep ws \<noteq> []"
  by (induction sep ws rule: join.induct) (auto simp: words_ok_Cons)

lemma takeWhile_join: "words_ok ws \<Longrightarrow> takeWhile isspace (join sep ws) = []"
proof (cases ws)
  case Nil
  then show ?thesis by simp
next
  case (Cons w vs)
  assume "words_ok ws"
  with Cons obtain c cs where "w = c # cs" "\<not> isspace c"
    by (cases w) (auto simp: words_ok_Cons)
  with Cons show ?thesis by (cases vs) auto
qed

lemma takeWhile_rev_word:
  "w \<noteq> [] \<Longrightarrow> list_all (\<lambda>c. \<not> isspace c) w \<Longrightarrow> takeWhile isspace (rev w) = []"
  by (cases w rule: rev_cases) auto

lemma takeWhile_rev_join: "words_ok ws \<Longrightarrow> takeWhile isspace (rev (join '' '' ws)) = []"
proof (induction "'' ''" ws rule: join.induct)
  case 1
  then show ?case by simp
next
  case (2 w)
  then show ?case by (simp add: words_ok_Cons takeWhile_rev_word)
next
  case (3 w v ws)
  then have ok: "words_ok (v # ws)" by (simp add: words_ok_Cons)
  with 3 have ih: "takeWhile isspace (rev (join '' '' (v # ws))) = []" by simp
  have ne: "rev (join '' '' (v # ws)) \<noteq> []" using join_nonempty [OF ok] by simp
  have "rev (join '' '' (w # v # ws)) = rev (join '' '' (v # ws)) @ (CHR '' '' # rev w)"
    by simp
  then show ?case using takeWhile_append_nil [OF ne ih] by simp
qed

lemma set_join:
  "words_ok ws \<Longrightarrow> c \<in> set (join '' '' ws) \<Longrightarrow> c = CHR '' '' \<or> \<not> isspace c"
  by (induction "'' ''" ws rule: join.induct) (auto simp: words_ok_Cons list_all_iff)

lemma double_space_space:
  "takeWhile isspace s = [] \<Longrightarrow> double_space (CHR '' '' # s) = double_space s"
  by (cases s) (auto simp: isspace_space split: if_splits)

lemma double_space_append:
  "w \<noteq> [] \<Longrightarrow> list_all (\<lambda>c. \<not> isspace c) w \<Longrightarrow> takeWhile isspace s = []
    \<Longrightarrow> double_space (w @ CHR '' '' # s) = double_space s"
proof (induction w)
  case Nil
  then show ?case by simp
next
  case (Cons a w)
  then have a: "a \<noteq> CHR '' ''" using isspace_space by auto
  show ?case
  proof (cases w)
    case Nil
    with a Cons.prems show ?thesis by (simp add: double_space_space)
  next
    case (Cons b v)
    with a Cons.IH Cons.prems show ?thesis by simp
  qed
qed

lemma double_space_word: "list_all (\<lambda>c. \<not> isspace c) w \<Longrightarrow> \<not> double_space w"
  by (induction w rule: double_space.induct) (auto simp: isspace_space)

lemma double_space_join: "words_ok ws \<Longrightarrow> \<not> double_space (join '' '' ws)"
proof (induction "'' ''" ws rule: join.induct)
  case 1
  then show ?case by simp
next
  case (2 w)
  then show ?case by (simp add: words_ok_Cons double_space_word)
next
  case (3 w v ws)
  then have ok: "words_ok (v # ws)" by (simp add: words_ok_Cons)
  from 3 have w: "w \<noteq> []" "list_all (\<lambda>c. \<not> isspace c) w" by (simp_all add: words_ok_Cons)
  show ?case using 3 ok double_space_append [OF w takeWhile_join [OF ok], of "'' ''"]
    by simp
qed

lemma double_space_nth:
  "Suc i < length s \<Longrightarrow> s ! i = CHR '' '' \<Longrightarrow> s ! Suc i = CHR '' '' \<Longrightarrow> double_space s"
proof (induction s arbitrary: i rule: double_space.induct)
  case (1 a b cs)
  then show ?case by (cases i) auto
qed auto

lemma strip_join: "words_ok ws \<Longrightarrow> strip (join '' '' ws) = join '' '' ws"
  by (simp add: strip_def lstrip_def rstrip_def dropWhile_id takeWhile_join takeWhile_rev_join)

lemma replace_join:
  assumes "words_ok ws"
  shows "replace_char (CHR 0xA0) (CHR '' '') (join '' '' ws) = join '' '' ws"
proof -
  have "\<forall>c \<in> set (join '' '' ws). c \<noteq> CHR 0xA0"
    using set_join [OF assms] isspace_nbsp by auto
  then show ?thesis
    unfolding replace_char_def by (simp add: map_idI)
qed

lemma normalize_text_join: "\<exists>ws. words_ok ws \<and> normalize_text s = join '' '' ws"
proof (cases s)
  case None
  have "words_ok []" by (simp add: words_ok_def)
  with None show ?thesis by (auto simp: normalize_text_def intro: exI [of _ "[]"])
next
  case (Some a)
  then show ?thesis
    by (auto simp: normalize_text_def Let_def intro: split_ws_words_ok)
qed

section \<open>Properties of the extractor\<close>

text \<open>The padding loop adds empty strings up to ten cells and leaves longer lists alone.\<close>

lemma pad_eq: "pad cells = cells @ replicate (10 - length cells) []"
proof (induction cells rule: pad.induct)
  case (1 cells)
  show ?case
  proof (cases "length cells < 10")
    case True
    then have "10 - length cells = Suc (10 - Suc (length cells))" by simp
    then have "replicate (10 - length cells) ([]::string) = [] # replicate (10 - Suc (length cells)) []"
      by simp
    with True 1 show ?thesis by (subst pad.simps) simp
  next
    case False
    then show ?thesis by (subst pad.simps) simp
  qed
qed

lemma parse_tr_eq:
  "parse_tr rows_out tr = (if keep_tr tr then rows_out @ [row10_of tr] else rows_out)"
  by (auto simp: parse_tr_def keep_tr_def row10_of_def Let_def pad_eq cells_of_def)

lemma foldl_parse_tr:
  "foldl parse_tr rows_out trs = rows_out @ map row10_of (filter keep_tr trs)"
  by (induction trs arbitrary: rows_out) (simp_all add: parse_tr_eq)

lemma foldl_tables:
  "foldl (\<lambda>rows_out table. foldl parse_tr rows_out (xpath_desc ''tr'' table)) rows_out tables
     = rows_out @ map row10_of (filter keep_tr (concat (map (xpath_desc ''tr'') tables)))"
  by (induction tables arbitrary: rows_out) (simp_all add: foldl_parse_tr)

lemma parse_tables_eq:
  "parse_tables tree =
     map row10_of (filter keep_tr (concat (map (xpath_desc ''tr'') (xpath_all ''table'' tree))))"
  by (simp add: parse_tables_def foldl_tables)


text \<open>\<open>main\<close> writes the file exactly when a row was parsed.\<close>

lemma main_no_rows: "main tree = (if parse_tables tree = [] then No_table_rows_parsed else Wrote_csv (parse_tables tree))"
  by (simp add: main_def Let_def)

text \<open>A document with a header row, a row of one cell, a row whose cells need
  normalising and a row of twelve cells.\<close>

lemma parse_tables_example:
  "parse_tables
     (Element ''html'' [Element ''body'' [Text ''Tides'',
        Element ''table''
          [Element ''tr'' [Element ''th'' [Text ''MM''], Element ''th'' [Text ''DD'']],
           Element ''tr'' [Element ''td'' [Text ''01'']],
           Element ''tr'' [Element ''td'' [Text '' 01 ''],
                           Element ''td'' [Element ''b'' [Text [CHR ''0'', CHR ''2'', CHR 0xA0]]],
                           Element ''td'' [Text ''05'', Text ''31''],
                           Element ''td'' [Text ''1.2   m'']],
           Element ''tr'' (map (\<lambda>s. Element ''td'' [Text s])
              [''a'', ''b'', ''c'', ''d'', ''e'', ''f'', ''g'', ''h'', ''i'', ''j'', ''k'', ''l''])]]])
   = [[''01'', ''02'', ''0531'', ''1.2 m'', [], [], [], [], [], []],
      [''a'', ''b'', ''c'', ''d'', ''e'', ''f'', ''g'', ''h'', ''i'', ''j'']]"
proof -
  have r: "replicate 6 ([]::string) = [[], [], [], [], [], []]"
    by (simp add: eval_nat_numeral)
  show ?thesis
    by (simp add: parse_tables_eq xpath_all_def xpath_desc_def keep_tr_def row10_of_def cells_of_def
        normalize_text_def strip_eval replace_char_def Let_def r)
qed

text \<open>On a text: nothing is written when the parser raises; otherwise the run is that of
  \<open>main\<close> on the tree.\<close>

lemma main_of_text_eq:
  "main_of_text fromstring html_text =
     (case fromstring html_text of
        None \<Rightarrow> None
      | Some tree \<Rightarrow> Some (if parse_tables tree = [] then No_table_rows_parsed
                           else Wrote_csv (parse_tables tree)))"
  by (simp add: main_of_text_def main_no_rows split: option.split)

section \<open>Properties of the Python conversions\<close>

lemma is_digit_not_space: "is_digit c \<Longrightarrow> \<not> isspace c"
  by (auto simp: is_digit_def isspace_def)

lemma is_digit_neq:
  "is_digit c \<Longrightarrow> c \<noteq> CHR ''_'' \<and> c \<noteq> CHR ''-'' \<and> c \<noteq> CHR ''+'' \<and> c \<noteq> CHR ''.''
     \<and> c \<noteq> CHR ''e'' \<and> c \<noteq> CHR ''E'' \<and> c \<noteq> CHR ''i'' \<and> c \<noteq> CHR ''n'' \<and> c \<noteq> CHR ''I'' \<and> c \<noteq> CHR ''N''"
  by (auto simp: is_digit_def)

lemma digitpart_ok_digits: "list_all is_digit s \<Longrightarrow> s \<noteq> [] \<Longrightarrow> digitpart_ok s"
  by (induction s rule: digitpart_ok.induct) (auto simp: is_digit_neq)

lemma strip_id:
  assumes "s \<noteq> []" "\<not> isspace (hd s)" "\<not> isspace (last s)"
  shows "strip s = s"
proof -
  have "dropWhile isspace s = s" using assms by (cases s) auto
  moreover have "dropWhile isspace (rev s) = rev s"
    using assms by (cases s rule: rev_cases) auto
  ultimately show ?thesis by (simp add: strip_def lstrip_def rstrip_def)
qed

lemma strip_nospace: "list_all (\<lambda>c. \<not> isspace c) s \<Longrightarrow> strip s = s"
proof (cases "s = []")
  case True
  then show ?thesis by (simp add: strip_def lstrip_def rstrip_def)
next
  case False
  assume "list_all (\<lambda>c. \<not> isspace c) s"
  with False have "\<not> isspace (hd s)" "\<not> isspace (last s)"
    by (auto simp: list_all_iff)
  with False show ?thesis by (rule strip_id)
qed

lemma digits_nospace: "list_all is_digit s \<Longrightarrow> list_all (\<lambda>c. \<not> isspace c) s"
  by (induction s) (auto simp: is_digit_not_space)

lemma num_space_isspace: "num_space c \<Longrightarrow> isspace c"
  by (auto simp: num_space_def isspace_def)

lemma num_strip_nospace:
  assumes "list_all (\<lambda>c. \<not> isspace c) s"
  shows "num_strip s = s"
proof -
  have n: "\<forall>c \<in> set s. \<not> num_space c"
    using assms num_space_isspace by (auto simp: list_all_iff)
  then have "dropWhile num_space s = s" by (cases s) auto
  moreover have "dropWhile num_space (rev s) = rev s"
    using n by (cases s rule: rev_cases) auto
  ultimately show ?thesis by (simp add: num_strip_def)
qed

lemma int_literal_digits:
  assumes "list_all is_digit s" "s \<noteq> []" "length s \<le> max_str_digits"
  shows "int_literal s = Some (int (digits_value s))"
proof -
  have "filter is_digit s = s" using assms(1) by (simp add: list_all_iff)
  then show ?thesis
    using digitpart_ok_digits [OF assms(1,2)] assms(3) by (simp add: int_literal_def)
qed

lemma py_int_digits:
  assumes "list_all is_digit s" "s \<noteq> []" "length s \<le> max_str_digits"
  shows "py_int s = Some (int (digits_value s))"
proof -
  obtain c cs where s: "s = c # cs" using assms(2) by (cases s) auto
  with assms(1) have c: "is_digit c" by simp
  have "num_strip s = s" using assms(1) by (simp add: num_strip_nospace digits_nospace)
  then show ?thesis
    using int_literal_digits [OF assms] is_digit_neq [OF c]
    by (simp add: py_int_def signed_def s)
qed

text \<open>A literal with more digits than the limit is rejected.\<close>

lemma py_int_too_long:
  assumes "list_all is_digit s" "max_str_digits < length s"
  shows "py_int s = None"
proof -
  from assms(2) obtain c cs where s: "s = c # cs" by (cases s) auto
  with assms(1) have c: "is_digit c" by simp
  have f: "filter is_digit s = s" using assms(1) by (simp add: list_all_iff)
  have "num_strip s = s" using assms(1) by (simp add: num_strip_nospace digits_nospace)
  moreover have "int_literal s = None" using assms(2) by (simp add: int_literal_def f)
  ultimately show ?thesis
    using is_digit_neq [OF c] by (simp add: py_int_def signed_def s)
qed

lemma strip_blank: "(strip s = []) = list_all isspace s"
proof -
  have "(dropWhile isspace s = []) = list_all isspace s"
    by (induction s) auto
  moreover have "strip s = [] \<longleftrightarrow> dropWhile isspace s = []"
  proof
    assume "strip s = []"
    then have "dropWhile isspace (rev (dropWhile isspace s)) = []"
      by (simp add: strip_def lstrip_def rstrip_def)
    then have a: "list_all isspace (rev (dropWhile isspace s))"
      by (simp add: dropWhile_eq_Nil_conv list_all_iff)
    show "dropWhile isspace s = []"
    proof (cases "dropWhile isspace s")
      case Nil
      then show ?thesis .
    next
      case (Cons x xs)
      then have "\<not> isspace x" using hd_dropWhile [of isspace s] by auto
      moreover from a have "isspace x" unfolding Cons by simp
      ultimately show ?thesis by simp
    qed
  next
    assume d: "dropWhile isspace s = []"
    show "strip s = []" unfolding strip_def lstrip_def rstrip_def d by simp
  qed
  ultimately show ?thesis by simp
qed

lemma is_digit_zero: "is_digit (CHR ''0'')"
  by (simp add: is_digit_def)

lemma zfill_digits:
  assumes "list_all is_digit T" "T \<noteq> []" "length T \<le> 4"
  shows "zfill 4 T = replicate (4 - length T) (CHR ''0'') @ T"
proof -
  obtain c cs where T: "T = c # cs" using assms(2) by (cases T) auto
  with assms(1) have "is_digit c" by simp
  then have "c \<noteq> CHR ''+''" "c \<noteq> CHR ''-''" using is_digit_neq by auto
  then show ?thesis using assms(3) by (auto simp: zfill_def T)
qed

lemma zfill_digits_props:
  assumes "list_all is_digit T" "T \<noteq> []" "length T \<le> 4"
  shows "list_all is_digit (zfill 4 T)" "length (zfill 4 T) = 4"
  using assms by (auto simp: zfill_digits is_digit_zero list_all_iff)

lemma take_drop_digits:
  assumes "list_all is_digit s" "length s = 4"
  shows "list_all is_digit (take 2 s)" "take 2 s \<noteq> []" "list_all is_digit (drop 2 s)" "drop 2 s \<noteq> []"
  using assms by (auto simp: list_all_iff dest: in_set_takeD in_set_dropD)

lemma valid_time_parse:
  assumes "valid_time T"
  shows "py_int (take 2 (zfill 4 T)) = Some (int (digits_value (take 2 (zfill 4 T))))"
    and "py_int (drop 2 (zfill 4 T)) = Some (int (digits_value (drop 2 (zfill 4 T))))"
proof -
  from assms have T: "list_all is_digit T" "T \<noteq> []" "length T \<le> 4"
    by (simp_all add: valid_time_def)
  note z = zfill_digits_props [OF T]
  have l: "length (take 2 (zfill 4 T)) \<le> max_str_digits"
    "length (drop 2 (zfill 4 T)) \<le> max_str_digits"
    using z(2) by (simp_all add: max_str_digits_def)
  show "py_int (take 2 (zfill 4 T)) = Some (int (digits_value (take 2 (zfill 4 T))))"
    using take_drop_digits [OF z] l by (intro py_int_digits)
  show "py_int (drop 2 (zfill 4 T)) = Some (int (digits_value (drop 2 (zfill 4 T))))"
    using take_drop_digits [OF z] l by (intro py_int_digits)
qed

lemma read_cell_digits: "list_all is_digit s \<Longrightarrow> s \<noteq> [] \<Longrightarrow> read_cell s = Str s"
  by (auto simp: read_cell_def na_values_def is_digit_def)

lemma read_cell_decimal_chars: "list_all decimal_char s \<Longrightarrow> s \<noteq> [] \<Longrightarrow> read_cell s = Str s"
  by (auto simp: read_cell_def na_values_def is_digit_def decimal_char_def)

lemma decimal_char_not_space: "decimal_char c \<Longrightarrow> \<not> isspace c"
  by (auto simp: decimal_char_def is_digit_def isspace_def)

lemma unsigned_decimal_cases:
  assumes "unsigned_decimal D"
  obtains "D \<noteq> []" "list_all is_digit D"
  | ip fp where "D = ip @ CHR ''.'' # fp" "ip \<noteq> []" "fp \<noteq> []" "list_all is_digit ip" "list_all is_digit fp"
proof (cases "dropWhile is_digit D")
  case Nil
  then have "list_all is_digit D" by (simp add: dropWhile_eq_Nil_conv list_all_iff)
  moreover have "D \<noteq> []" using assms by (auto simp: unsigned_decimal_def Let_def)
  ultimately show ?thesis using that(1) by blast
next
  case (Cons c fp)
  with assms have c: "c = CHR ''.''" and fp: "fp \<noteq> []" "list_all is_digit fp"
    and ip: "takeWhile is_digit D \<noteq> []"
    by (auto simp: unsigned_decimal_def Let_def)
  have "D = takeWhile is_digit D @ CHR ''.'' # fp"
    using takeWhile_dropWhile_id [of is_digit D] Cons c by simp
  with that(2) [of "takeWhile is_digit D" fp] ip fp show ?thesis
    by (simp add: takeWhile_all)
qed

lemma to_lower_decimal: "decimal_char c \<Longrightarrow> to_lower c = c"
  by (auto simp: decimal_char_def is_digit_def to_lower_def)

lemma map_to_lower_decimal: "list_all decimal_char s \<Longrightarrow> map to_lower s = s"
  by (induction s) (auto simp: to_lower_decimal)

lemma decimal_not_word:
  assumes "list_all decimal_char s"
  shows "s \<noteq> ''inf''" "s \<noteq> ''infinity''" "s \<noteq> ''nan''"
  using assms by (auto simp: decimal_char_def is_digit_def)

lemma decimal_char_not_e: "decimal_char c \<Longrightarrow> c \<noteq> CHR ''e'' \<and> c \<noteq> CHR ''E''"
  using is_digit_neq [of c] by (auto simp: decimal_char_def)

lemma decimal_no_exponent:
  assumes "list_all decimal_char s"
  shows "takeWhile (\<lambda>c. c \<noteq> CHR ''e'' \<and> c \<noteq> CHR ''E'') s = s"
    and "dropWhile (\<lambda>c. c \<noteq> CHR ''e'' \<and> c \<noteq> CHR ''E'') s = []"
proof -
  have "\<forall>c \<in> set s. c \<noteq> CHR ''e'' \<and> c \<noteq> CHR ''E''"
    using assms decimal_char_not_e by (auto simp: list_all_iff)
  then show "takeWhile (\<lambda>c. c \<noteq> CHR ''e'' \<and> c \<noteq> CHR ''E'') s = s"
    and "dropWhile (\<lambda>c. c \<noteq> CHR ''e'' \<and> c \<noteq> CHR ''E'') s = []"
    by (simp_all add: takeWhile_eq_all_conv dropWhile_eq_Nil_conv)
qed

lemma digits_no_point:
  assumes "list_all is_digit s"
  shows "takeWhile (\<lambda>c. c \<noteq> CHR ''.'') (s @ t) = s @ takeWhile (\<lambda>c. c \<noteq> CHR ''.'') t"
    and "dropWhile (\<lambda>c. c \<noteq> CHR ''.'') (s @ t) = dropWhile (\<lambda>c. c \<noteq> CHR ''.'') t"
proof -
  have "\<forall>c \<in> set s. c \<noteq> CHR ''.''"
    using assms is_digit_neq by (auto simp: list_all_iff)
  then show "takeWhile (\<lambda>c. c \<noteq> CHR ''.'') (s @ t) = s @ takeWhile (\<lambda>c. c \<noteq> CHR ''.'') t"
    and "dropWhile (\<lambda>c. c \<noteq> CHR ''.'') (s @ t) = dropWhile (\<lambda>c. c \<noteq> CHR ''.'') t"
    by simp_all
qed

lemma digits_decimal: "list_all is_digit s \<Longrightarrow> list_all decimal_char s"
  by (induction s) (auto simp: decimal_char_def)

lemma mantissa_digits:
  assumes "list_all is_digit D" "D \<noteq> []"
  shows "mantissa_value D = Some (digits_value D, 0)"
proof -
  have t: "takeWhile (\<lambda>c. c \<noteq> CHR ''.'') D = D" "dropWhile (\<lambda>c. c \<noteq> CHR ''.'') D = []"
    using digits_no_point [OF assms(1), of "[]"] by simp_all
  show ?thesis
    unfolding mantissa_value_def Let_def t using digitpart_ok_digits [OF assms] by simp
qed

lemma mantissa_point:
  assumes "list_all is_digit ip" "ip \<noteq> []" "list_all is_digit fp" "fp \<noteq> []"
  shows "mantissa_value (ip @ CHR ''.'' # fp) = Some (digits_value (ip @ fp), length fp)"
proof -
  have f: "filter is_digit fp = fp" using assms(3) by (simp add: list_all_iff)
  have t: "takeWhile (\<lambda>c. c \<noteq> CHR ''.'') (ip @ CHR ''.'' # fp) = ip"
    "dropWhile (\<lambda>c. c \<noteq> CHR ''.'') (ip @ CHR ''.'' # fp) = CHR ''.'' # fp"
    by (simp_all add: digits_no_point [OF assms(1)])
  have c: "(ip = [] \<or> digitpart_ok ip) \<and> (fp = [] \<or> digitpart_ok fp) \<and> (ip \<noteq> [] \<or> fp \<noteq> [])"
    using digitpart_ok_digits [OF assms(1,2)] digitpart_ok_digits [OF assms(3,4)] assms(2,4)
    by blast
  show ?thesis
    unfolding mantissa_value_def Let_def t list.case if_P [OF c] f ..
qed

lemma float_body_unsigned_decimal:
  assumes "unsigned_decimal D"
  shows "\<exists>v. float_body D = Some v" "list_all decimal_char D" "D \<noteq> []"
proof -
  from assms have d: "list_all decimal_char D \<and> D \<noteq> [] \<and> (\<exists>v. mantissa_value D = Some v)"
  proof (cases rule: unsigned_decimal_cases)
    case 1
    then show ?thesis by (simp add: mantissa_digits digits_decimal)
  next
    case (2 ip fp)
    then show ?thesis
      using digits_decimal [of ip] digits_decimal [of fp]
      by (simp add: mantissa_point decimal_char_def)
  qed
  then show "list_all decimal_char D" "D \<noteq> []" by simp_all
  from d obtain a b where m: "mantissa_value D = Some (a, b)" by auto
  from d have l: "map to_lower D = D" by (simp add: map_to_lower_decimal)
  from d have e: "takeWhile (\<lambda>c. c \<noteq> CHR ''e'' \<and> c \<noteq> CHR ''E'') D = D"
    "dropWhile (\<lambda>c. c \<noteq> CHR ''e'' \<and> c \<noteq> CHR ''E'') D = []"
    by (simp_all add: decimal_no_exponent)
  from d have w: "D \<noteq> ''inf''" "D \<noteq> ''infinity''" "D \<noteq> ''nan''"
    using decimal_not_word [of D] by simp_all
  show "\<exists>v. float_body D = Some v"
    unfolding float_body_def Let_def l e m using w by simp
qed

lemma decimal_string_props:
  assumes "decimal_string H"
  shows "\<exists>v. py_float H = Some v" "read_cell H = Str H" "strip H = H" "H \<noteq> []"
proof -
  from assms obtain c D where H: "H = c # D" by (cases H) (auto simp: decimal_string_def)
  have all: "list_all decimal_char H" and f: "\<exists>v. signed float_body float_neg H = Some v"
  proof -
    show "list_all decimal_char H"
    proof (cases "c = CHR ''-''")
      case True
      with assms H have "unsigned_decimal D" by (simp add: decimal_string_def)
      from float_body_unsigned_decimal(2) [OF this] True show ?thesis
        by (simp add: H decimal_char_def)
    next
      case False
      with assms H have "unsigned_decimal H" by (simp add: decimal_string_def)
      then show ?thesis by (rule float_body_unsigned_decimal(2))
    qed
    show "\<exists>v. signed float_body float_neg H = Some v"
    proof (cases "c = CHR ''-''")
      case True
      with assms H have "unsigned_decimal D" by (simp add: decimal_string_def)
      from float_body_unsigned_decimal(1) [OF this] True show ?thesis
        by (auto simp: signed_def H)
    next
      case False
      with assms H have u: "unsigned_decimal H" by (simp add: decimal_string_def)
      then have "is_digit c" by (auto simp: unsigned_decimal_def Let_def H split: if_splits)
      then have "c \<noteq> CHR ''+''" using is_digit_neq by auto
      with float_body_unsigned_decimal(1) [OF u] False show ?thesis
        by (auto simp: signed_def H)
    qed
  qed
  have ns: "list_all (\<lambda>c. \<not> isspace c) H"
    using all by (auto simp: list_all_iff decimal_char_not_space)
  then show "strip H = H" by (rule strip_nospace)
  show "\<exists>v. py_float H = Some v" using f by (simp add: py_float_def num_strip_nospace [OF ns])
  show "H \<noteq> []" by (simp add: H)
  then show "read_cell H = Str H" using all by (simp add: read_cell_decimal_chars)
qed

section \<open>A document built from rows of cell texts\<close>

lemma descendants_tr_of: "descendants (tr_of row) = concat (map (\<lambda>s. [td_of s, Text s]) row)"
  by (induction row) (simp_all add: tr_of_def td_of_def)

lemma xpath_desc_tr_of:
  "xpath_desc ''td'' (tr_of row) = map td_of row" "xpath_desc ''th'' (tr_of row) = []"
  "filter (has_tag ''tr'') (descendants (tr_of row)) = []"
  "filter (has_tag ''table'') (descendants (tr_of row)) = []"
  by (induction row) (simp_all add: xpath_desc_def descendants_tr_of td_of_def)

lemma xpath_table_of:
  "xpath_desc ''tr'' (table_of rows) = map tr_of rows"
  "xpath_all ''table'' (table_of rows) = [table_of rows]"
proof -
  have d: "descendants (table_of rows) = concat (map (\<lambda>row. tr_of row # descendants (tr_of row)) rows)"
    by (simp add: table_of_def comp_def)
  have t: "has_tag ''tr'' (tr_of row)" "\<not> has_tag ''table'' (tr_of row)" for row
    by (simp_all add: tr_of_def)
  show "xpath_desc ''tr'' (table_of rows) = map tr_of rows"
    unfolding xpath_desc_def d by (induction rows) (simp_all add: t xpath_desc_tr_of)
  have "filter (has_tag ''table'') (descendants (table_of rows)) = []"
    unfolding d by (induction rows) (simp_all add: t xpath_desc_tr_of)
  then show "xpath_all ''table'' (table_of rows) = [table_of rows]"
    by (simp add: xpath_all_def) (simp add: table_of_def)
qed

lemma cells_of_td_of: "cells_of (map td_of row) = map (\<lambda>s. normalize_text (Some s)) row"
  by (simp add: cells_of_def td_of_def comp_def)

lemma normalize_text_nospace:
  assumes "list_all (\<lambda>c. \<not> isspace c) s"
  shows "normalize_text (Some s) = s"
proof -
  have "\<forall>c \<in> set s. c \<noteq> CHR 0xA0" using assms isspace_nbsp by (auto simp: list_all_iff)
  then have r: "replace_char (CHR 0xA0) (CHR '' '') s = s"
    unfolding replace_char_def by (simp add: map_idI)
  have j: "join '' '' (split_ws s) = s"
  proof (cases "s = []")
    case True
    then show ?thesis by simp
  next
    case False
    with assms show ?thesis by (simp add: split_ws_word)
  qed
  show ?thesis by (simp add: normalize_text_def Let_def strip_nospace [OF assms] r j)
qed

lemma parse_tables_table_of:
  assumes "list_all (\<lambda>row. length row = 10 \<and> list_all (\<lambda>s. list_all (\<lambda>c. \<not> isspace c) s) row) rows"
  shows "parse_tables (table_of rows) = rows"
proof -
  have k: "keep_tr (tr_of row)" "row10_of (tr_of row) = row"
    if "length row = 10" "list_all (\<lambda>s. list_all (\<lambda>c. \<not> isspace c) s) row" for row
  proof -
    show "keep_tr (tr_of row)" using that(1) by (simp add: keep_tr_def xpath_desc_tr_of)
    have "map (\<lambda>s. normalize_text (Some s)) row = row"
      using that(2) by (intro map_idI) (simp add: list_all_iff normalize_text_nospace)
    then show "row10_of (tr_of row) = row"
      using that(1) by (simp add: row10_of_def xpath_desc_tr_of cells_of_td_of)
  qed
  have "map row10_of (filter keep_tr (map tr_of rows)) = rows"
    using assms by (induction rows) (simp_all add: k)
  then show ?thesis by (simp add: parse_tables_eq xpath_table_of)
qed

section \<open>Properties of the melt loop\<close>

lemma days_in_month_le: "days_in_month y m \<le> 31"
  by (simp add: days_in_month_def)

lemma Timestamp_valid:
  assumes "1 \<le> m" "m \<le> 12" "1 \<le> d" "d \<le> days_in_month 2023 m"
    "0 \<le> hh" "hh < 24" "0 \<le> mi" "mi < 60"
  shows "Timestamp 2023 m d hh mi
    = Inr \<lparr>ts_year = 2023, ts_month = m, ts_day = d, ts_hour = hh, ts_minute = mi\<rparr>"
proof -
  have "d \<le> 31" using assms(4) days_in_month_le [of 2023 m] by linarith
  with assms show ?thesis by (simp add: Timestamp_def fits_c_int_def)
qed

lemma melt_slot_blank:
  assumes "blank (r (t_col i)) \<or> blank (r (h_col i))"
  shows "melt_slot mth dy r i = Inr None"
proof -
  have b: "blank (r c) \<Longrightarrow> isna (get r c (Str [])) \<or> strip (str (get r c (Str []))) = []" for c
    by (auto simp: blank_def get_def strip_blank split: option.splits cell.splits)
  from assms b [of "t_col i"] b [of "h_col i"] show ?thesis
    by (auto simp: melt_slot_def Let_def)
qed

lemma melt_slot_bad_int:
  assumes "r (t_col i) = Some (Str T)"
    and "py_int (take 2 (zfill 4 T)) = None \<or> py_int (drop 2 (zfill 4 T)) = None"
  shows "melt_slot mth dy r i = Inr None"
  using assms by (auto simp: melt_slot_def Let_def get_def split: option.splits)

lemma melt_slot_valid:
  assumes t: "r (t_col i) = Some (Str T)" and h: "r (h_col i) = Some (Str H)"
    and T: "valid_time T" and H: "decimal_string H"
    and d: "1 \<le> mth" "mth \<le> 12" "1 \<le> dy" "dy \<le> days_in_month 2023 mth"
  shows "\<exists>v. py_float H = Some v \<and> melt_slot mth dy r i =
    Inr (Some \<lparr>datetime = \<lparr>ts_year = 2023, ts_month = mth, ts_day = dy,
                   ts_hour = int (digits_value (take 2 (zfill 4 T))),
                   ts_minute = int (digits_value (drop 2 (zfill 4 T)))\<rparr>,
                tide_m = v, pair = i, month = mth, day = dy\<rparr>)"
proof -
  from decimal_string_props [OF H] obtain q where
    q: "py_float H = Some q" and sH: "strip H = H" and nH: "H \<noteq> []" by auto
  from T have dT: "list_all is_digit T" and nT: "T \<noteq> []"
    and hr: "digits_value (take 2 (zfill 4 T)) < 24" and mi: "digits_value (drop 2 (zfill 4 T)) < 60"
    by (simp_all add: valid_time_def)
  have sT: "strip T = T" using dT by (simp add: strip_nospace digits_nospace)
  have ts: "Timestamp 2023 mth dy (int (digits_value (take 2 (zfill 4 T))))
      (int (digits_value (drop 2 (zfill 4 T))))
    = Inr \<lparr>ts_year = 2023, ts_month = mth, ts_day = dy,
           ts_hour = int (digits_value (take 2 (zfill 4 T))),
           ts_minute = int (digits_value (drop 2 (zfill 4 T)))\<rparr>"
    using d hr mi by (intro Timestamp_valid) simp_all
  have "melt_slot mth dy r i =
    Inr (Some \<lparr>datetime = \<lparr>ts_year = 2023, ts_month = mth, ts_day = dy,
                   ts_hour = int (digits_value (take 2 (zfill 4 T))),
                   ts_minute = int (digits_value (drop 2 (zfill 4 T)))\<rparr>,
                tide_m = q, pair = i, month = mth, day = dy\<rparr>)"
    unfolding melt_slot_def Let_def get_def t h
    by (simp add: sT sH nT nH valid_time_parse [OF T] ts q)
  with q show ?thesis by blast
qed

lemma fold_ensure:
  "fold (\<lambda>c r. if r c = None then r(c \<mapsto> NaN) else r) cs r k
     = (if k \<in> set cs \<and> r k = None then Some NaN else r k)"
  by (induction cs arbitrary: r) auto

lemma ensure_columns_Cons: "ensure_columns (r # df) = ensure_row r # ensure_columns df"
  by (simp add: ensure_columns_def)

lemma ensure_row_lookup:
  "ensure_row r k = (if k \<in> set expected \<and> r k = None then Some NaN else r k)"
  by (simp add: ensure_row_def fold_ensure)

lemma t_col_expected: "i \<in> {1, 2, 3, 4} \<Longrightarrow> t_col i \<in> set expected"
  by (auto simp: t_col_def str_nat_digit digit_char_def expected_def)

lemma h_col_expected: "i \<in> {1, 2, 3, 4} \<Longrightarrow> h_col i \<in> set expected"
  by (auto simp: h_col_def str_nat_digit digit_char_def expected_def)

lemma month_day_expected: "''month'' \<in> set expected" "''day'' \<in> set expected"
  by (simp_all add: expected_def)

lemma melt_slots_acc:
  "melt_slots mth dy r js rows =
     (case melt_slots mth dy r js [] of Inl e \<Rightarrow> Inl e | Inr new \<Rightarrow> Inr (rows @ new))"
proof (induction js arbitrary: rows)
  case Nil
  then show ?case by simp
next
  case (Cons j js)
  show ?case
  proof (cases "melt_slot mth dy r j")
    case (Inl e)
    then show ?thesis by simp
  next
    case (Inr v)
    show ?thesis
    proof (cases v)
      case None
      with Inr Cons [of rows] show ?thesis by simp
    next
      case (Some rd)
      with Inr Cons [of "rows @ [rd]"] Cons [of "[rd]"] show ?thesis
        by (simp split: sum.splits)
    qed
  qed
qed

lemma melt_row_acc:
  "melt_row r rows = (case melt_row r [] of Inl e \<Rightarrow> Inl e | Inr new \<Rightarrow> Inr (rows @ new))"
  using melt_slots_acc [of _ _ r "[1, 2, 3, 4]" rows]
  by (simp add: melt_row_def split: sum.splits)

lemma melt_acc:
  "melt df rows = (case melt df [] of Inl e \<Rightarrow> Inl e | Inr new \<Rightarrow> Inr (rows @ new))"
proof (induction df arbitrary: rows)
  case Nil
  then show ?case by simp
next
  case (Cons r df)
  show ?case
  proof (cases "melt_row r []")
    case (Inl e)
    then show ?thesis using melt_row_acc [of r rows] by simp
  next
    case (Inr new)
    then have a: "melt_row r rows = Inr (rows @ new)" using melt_row_acc [of r rows] by simp
    show ?thesis
    proof (cases "melt df []")
      case (Inl e)
      with Cons [of "rows @ new"] Cons [of new] show ?thesis by (simp add: a Inr)
    next
      case (Inr rest)
      with Cons [of "rows @ new"] Cons [of new] show ?thesis by (simp add: a \<open>melt_row r [] = Inr new\<close>)
    qed
  qed
qed

lemma melt_Cons:
  "melt (r # df) [] =
     (case melt_row r [] of
        Inl e \<Rightarrow> Inl e
      | Inr new \<Rightarrow> (case melt df [] of Inl e \<Rightarrow> Inl e | Inr rest \<Rightarrow> Inr (new @ rest)))"
proof (cases "melt_row r []")
  case (Inl e)
  then show ?thesis by simp
next
  case (Inr new)
  then show ?thesis using melt_acc [of df new] by simp
qed

lemma length10E:
  assumes "length row = 10"
  obtains a b c d e f g h i j where "row = [a, b, c, d, e, f, g, h, i, j]"
  using assms by (auto simp: length_Suc_conv eval_nat_numeral)

lemma series_of_row_lookup:
  assumes "length row = 10"
  shows "series_of_row row ''month'' = Some (read_cell (row ! 0))"
    and "series_of_row row ''day'' = Some (read_cell (row ! 1))"
    and "i \<in> {1, 2, 3, 4} \<Longrightarrow> series_of_row row (t_col i) = Some (read_cell (row ! (2 * i)))"
    and "i \<in> {1, 2, 3, 4} \<Longrightarrow> series_of_row row (h_col i) = Some (read_cell (row ! (2 * i + 1)))"
proof -
  from assms obtain a b c d e f g h k j where row: "row = [a, b, c, d, e, f, g, h, k, j]"
    by (rule length10E)
  show "series_of_row row ''month'' = Some (read_cell (row ! 0))"
    and "series_of_row row ''day'' = Some (read_cell (row ! 1))"
    by (simp_all add: row series_of_row_def expected_def)
  show "i \<in> {1, 2, 3, 4} \<Longrightarrow> series_of_row row (t_col i) = Some (read_cell (row ! (2 * i)))"
    by (auto simp: row series_of_row_def expected_def t_col_def str_nat_digit digit_char_def)
  show "i \<in> {1, 2, 3, 4} \<Longrightarrow> series_of_row row (h_col i) = Some (read_cell (row ! (2 * i + 1)))"
    by (auto simp: row series_of_row_def expected_def h_col_def str_nat_digit digit_char_def)
qed

lemma ensure_series_of_row:
  assumes "length row = 10"
  shows "ensure_row (series_of_row row) ''month'' = Some (read_cell (row ! 0))"
    and "ensure_row (series_of_row row) ''day'' = Some (read_cell (row ! 1))"
    and "i \<in> {1, 2, 3, 4} \<Longrightarrow> ensure_row (series_of_row row) (t_col i) = Some (read_cell (row ! (2 * i)))"
    and "i \<in> {1, 2, 3, 4} \<Longrightarrow> ensure_row (series_of_row row) (h_col i) = Some (read_cell (row ! (2 * i + 1)))"
  by (simp_all add: ensure_row_lookup series_of_row_lookup [OF assms])

lemma melt_slots_Inr:
  assumes "\<And>i. i \<in> set js \<Longrightarrow> melt_slot mth dy r i = Inr (f i)"
  shows "melt_slots mth dy r js rows = Inr (rows @ List.map_filter f js)"
  using assms
proof (induction js arbitrary: rows)
  case Nil
  then show ?case by (simp add: map_filter_simps)
next
  case (Cons j js)
  then have j: "melt_slot mth dy r j = Inr (f j)" by simp
  from Cons have ih: "melt_slots mth dy r js rows' = Inr (rows' @ List.map_filter f js)" for rows'
    by simp
  show ?case by (cases "f j") (simp_all add: j ih map_filter_simps)
qed

lemma length_map_filter_all:
  "(\<And>i. i \<in> set js \<Longrightarrow> f i \<noteq> None) \<Longrightarrow> length (List.map_filter f js) = length js"
  by (induction js) (auto simp: map_filter_simps split: option.splits)

lemma int_of_cell_digits:
  "list_all is_digit s \<Longrightarrow> s \<noteq> [] \<Longrightarrow> length s \<le> max_str_digits
    \<Longrightarrow> int_of_cell (Str s) = Inr (int (digits_value s))"
  by (simp add: int_of_cell_def py_int_digits)

lemma melt_row_Inr:
  assumes m: "r ''month'' = Some (Str mm)" and d: "r ''day'' = Some (Str dd)"
    and mm: "list_all is_digit mm" "mm \<noteq> []" and dd: "list_all is_digit dd" "dd \<noteq> []"
    and lm: "length mm \<le> max_str_digits" and ld: "length dd \<le> max_str_digits"
    and s: "\<And>i. i \<in> {1, 2, 3, 4} \<Longrightarrow>
      melt_slot (int (digits_value mm)) (int (digits_value dd)) r i = Inr (f i)"
  shows "melt_row r rows = Inr (rows @ List.map_filter f [1, 2, 3, 4])"
proof -
  have "melt_slots (int (digits_value mm)) (int (digits_value dd)) r [1, 2, 3, 4] rows
      = Inr (rows @ List.map_filter f [1, 2, 3, 4])"
    by (rule melt_slots_Inr) (simp add: s)
  then show ?thesis
    by (simp add: melt_row_def getitem_def m d int_of_cell_digits [OF mm lm]
        int_of_cell_digits [OF dd ld])
qed

lemma calendar_day_date:
  assumes "calendar_day mm dd"
  shows "1 \<le> int (digits_value mm)" "int (digits_value mm) \<le> 12" "1 \<le> int (digits_value dd)"
    "int (digits_value dd) \<le> days_in_month 2023 (int (digits_value mm))"
    "list_all is_digit mm" "mm \<noteq> []" "list_all is_digit dd" "dd \<noteq> []"
    "length mm \<le> max_str_digits" "length dd \<le> max_str_digits"
  using assms by (simp_all add: calendar_day_def)

lemma valid_time_cell: "valid_time T \<Longrightarrow> read_cell T = Str T"
  by (simp add: valid_time_def read_cell_digits)

lemma melt_row_valid_wide:
  assumes "valid_wide_row row"
  shows "\<exists>rds. melt_row (ensure_row (series_of_row row)) [] = Inr rds \<and> length rds = 4"
proof -
  let ?r = "ensure_row (series_of_row row)"
  let ?mm = "row ! 0" and ?dd = "row ! 1"
  let ?mth = "int (digits_value ?mm)" and ?dy = "int (digits_value ?dd)"
  let ?f = "\<lambda>i. case melt_slot ?mth ?dy ?r i of Inl e \<Rightarrow> None | Inr v \<Rightarrow> v"
  from assms have len: "length row = 10" and cal: "calendar_day ?mm ?dd"
    and sl: "\<And>i. i \<in> {1, 2, 3, 4} \<Longrightarrow> valid_time (row ! (2 * i)) \<and> decimal_string (row ! (2 * i + 1))"
    by (auto simp: valid_wide_row_def)
  note c = calendar_day_date [OF cal]
  have rc: "read_cell ?mm = Str ?mm" "read_cell ?dd = Str ?dd"
    by (rule read_cell_digits [OF c(5,6)], rule read_cell_digits [OF c(7,8)])
  have m: "?r ''month'' = Some (Str ?mm)" and d: "?r ''day'' = Some (Str ?dd)"
    by (simp_all only: ensure_series_of_row [OF len] rc)
  have slot: "melt_slot ?mth ?dy ?r i = Inr (?f i) \<and> ?f i \<noteq> None" if i: "i \<in> {1, 2, 3, 4}" for i
  proof -
    have t: "?r (t_col i) = Some (Str (row ! (2 * i)))"
      using sl [OF i] by (simp add: ensure_series_of_row(3) [OF len i] valid_time_cell)
    have h: "?r (h_col i) = Some (Str (row ! (2 * i + 1)))"
      using sl [OF i] by (simp add: ensure_series_of_row(4) [OF len i] decimal_string_props)
    from melt_slot_valid [OF t h _ _ c(1-4)] sl [OF i]
    obtain rd where "melt_slot ?mth ?dy ?r i = Inr (Some rd)" by blast
    then show ?thesis by simp
  qed
  have "melt_row ?r [] = Inr ([] @ List.map_filter ?f [1, 2, 3, 4])"
    using slot by (intro melt_row_Inr [OF m d c(5-10)]) blast
  moreover have "length (List.map_filter ?f [1, 2, 3, 4]) = length [1, 2, 3, 4 :: nat]"
    using slot by (intro length_map_filter_all) simp
  ultimately show ?thesis by simp
qed

lemma melt_valid_wide:
  assumes "list_all valid_wide_row rows"
  shows "\<exists>rds. melt (ensure_columns (read_csv rows)) [] = Inr rds \<and> length rds = 4 * length rows"
  using assms
proof (induction rows)
  case Nil
  then show ?case by (simp add: read_csv_def ensure_columns_def)
next
  case (Cons row rows)
  then obtain rest where rest: "melt (ensure_columns (read_csv rows)) [] = Inr rest"
    "length rest = 4 * length rows" by auto
  from Cons.prems melt_row_valid_wide [of row] obtain new where
    new: "melt_row (ensure_row (series_of_row row)) [] = Inr new" "length new = 4" by auto
  from Cons.prems have "row \<noteq> []" by (auto simp: valid_wide_row_def)
  then have "ensure_columns (read_csv (row # rows))
      = ensure_row (series_of_row row) # ensure_columns (read_csv rows)"
    by (simp add: read_csv_def ensure_columns_def)
  then have "melt (ensure_columns (read_csv (row # rows))) [] = Inr (new @ rest)"
    by (simp only: melt_Cons new rest sum.case)
  with new rest show ?case by simp
qed

lemma sort_values_contract:
  assumes "sort_values long long'"
  shows "mset long' = mset long" "sorted (map (\<lambda>rd. ts_key (datetime rd)) long')"
  using assms by (auto simp: sort_values_def split: if_splits)

lemma sort_values_length: "sort_values long long' \<Longrightarrow> length long' = length long"
  by (auto dest: sort_values_contract(1) mset_eq_length)

lemma one_pair_row_nth:
  assumes "k \<in> {1, 2, 3, 4}"
  shows "length (one_pair_row mm dd k T H) = 10"
    and "one_pair_row mm dd k T H ! 0 = mm" and "one_pair_row mm dd k T H ! 1 = dd"
    and "i \<in> {1, 2, 3, 4} \<Longrightarrow> one_pair_row mm dd k T H ! (2 * i) = (if i = k then T else [])"
    and "i \<in> {1, 2, 3, 4} \<Longrightarrow> one_pair_row mm dd k T H ! (2 * i + 1) = (if i = k then H else [])"
  using assms by (auto simp: one_pair_row_def)

lemma one_pair_row_set:
  assumes "k \<in> {1, 2, 3, 4}"
  shows "set (one_pair_row mm dd k T H) = {mm, dd, T, H, []}"
  using assms by (auto simp: one_pair_row_def)

lemma read_cell_empty: "read_cell [] = NaN"
  by (simp add: read_cell_def na_values_def)

lemma sort_values_single: "sort_values [rd] long = (long = [rd])"
  by (simp add: sort_values_def)

lemma zfill_id: "4 \<le> length T \<Longrightarrow> zfill 4 T = T"
  by (simp add: zfill_def)

lemma decimal_string_chars:
  assumes "decimal_string H"
  shows "list_all decimal_char H"
proof -
  from assms obtain c D where H: "H = c # D" by (cases H) (auto simp: decimal_string_def)
  show ?thesis
  proof (cases "c = CHR ''-''")
    case True
    with assms H have "unsigned_decimal D" by (simp add: decimal_string_def)
    from float_body_unsigned_decimal(2) [OF this] True show ?thesis
      by (simp add: H decimal_char_def)
  next
    case False
    with assms H have "unsigned_decimal H" by (simp add: decimal_string_def)
    then show ?thesis by (rule float_body_unsigned_decimal(2))
  qed
qed

lemma decimal_string_nospace: "decimal_string H \<Longrightarrow> list_all (\<lambda>c. \<not> isspace c) H"
  using decimal_string_chars [of H] by (auto simp: list_all_iff decimal_char_not_space)

lemma melt_row_month_day:
  "melt_row r rows =
     (case month_day r of Inl e \<Rightarrow> Inl e | Inr (mth, dy) \<Rightarrow> melt_slots mth dy r [1, 2, 3, 4] rows)"
  by (simp add: melt_row_def month_day_def split: sum.splits)

lemma melt_row_all_blank:
  assumes "list_all (\<lambda>i. blank (r (t_col i)) \<or> blank (r (h_col i))) [1, 2, 3, 4]"
  shows "melt_row r rows = (case month_day r of Inl e \<Rightarrow> Inl e | Inr md \<Rightarrow> Inr rows)"
proof (cases "month_day r")
  case (Inl e)
  then show ?thesis by (simp add: melt_row_month_day)
next
  case (Inr md)
  obtain mth dy where md: "md = (mth, dy)" by (cases md)
  have "melt_slots mth dy r [1, 2, 3, 4] rows
      = Inr (rows @ List.map_filter (\<lambda>i. None) [1, 2, 3, 4 :: nat])"
    using assms by (intro melt_slots_Inr) (auto simp: melt_slot_blank)
  then show ?thesis by (simp add: melt_row_month_day Inr md map_filter_simps)
qed

lemma month_day_not_integer:
  assumes "not_integer (r ''month'') \<or> not_integer (r ''day'')"
  shows "\<exists>e. month_day (ensure_row r) = Inl e"
proof -
  have n: "not_integer (r c) \<Longrightarrow> c \<in> set expected
      \<Longrightarrow> \<exists>v. ensure_row r c = Some v \<and> int_of_cell v = Inl ValueError" for c
    by (auto simp: not_integer_def ensure_row_lookup int_of_cell_def split: option.splits cell.splits)
  from assms show ?thesis
  proof
    assume "not_integer (r ''month'')"
    from n [OF this month_day_expected(1)] show ?thesis
      by (auto simp: month_day_def getitem_def)
  next
    assume "not_integer (r ''day'')"
    from n [OF this month_day_expected(2)] show ?thesis
      by (auto simp: month_day_def getitem_def split: sum.splits option.splits)
  qed
qed

lemma melt_abort:
  assumes "r \<in> set df" "\<And>rows. \<exists>e. melt_row r rows = Inl e"
  shows "\<exists>e. melt df rows = Inl e"
  using assms(1)
proof (induction df arbitrary: rows)
  case Nil
  then show ?case by simp
next
  case (Cons a df)
  show ?case
  proof (cases "melt_row a rows")
    case (Inl e)
    then show ?thesis by simp
  next
    case (Inr rows')
    with assms(2) [of rows] have "a \<noteq> r" by auto
    with Cons.prems have "r \<in> set df" by simp
    from Cons.IH [OF this, of rows'] Inr show ?thesis by simp
  qed
qed

lemma reshape_abort:
  "melt (ensure_columns df) [] = Inl e \<Longrightarrow> reshape_and_plot df out = (out = Inl e)"
  by (simp add: reshape_and_plot_def)

section \<open>Properties of sorting and of the whole run\<close>

lemma sort_values_unique:
  assumes s: "sorted (map (\<lambda>rd. ts_key (datetime rd)) rows)"
    and d: "distinct (map (\<lambda>rd. ts_key (datetime rd)) rows)"
  shows "sort_values rows long = (long = rows)"
proof
  assume "sort_values rows long"
  then have m: "mset long = mset rows" and sl: "sorted (map (\<lambda>rd. ts_key (datetime rd)) long)"
    by (rule sort_values_contract)+
  let ?f = "\<lambda>rd. ts_key (datetime rd)"
  have "mset (map ?f long) = mset (map ?f rows)" using m by simp
  then have "sort (map ?f rows) = map ?f long" using sl by (intro properties_for_sort)
  moreover have "sort (map ?f rows) = map ?f rows" using s by (rule sorted_sort_id)
  ultimately have e: "map ?f long = map ?f rows" by simp
  have "inj_on ?f (set rows)" using d by (simp add: distinct_map)
  moreover have "set long = set rows" using m by (rule mset_eq_setD)
  ultimately have "inj_on ?f (set long \<union> set rows)" by simp
  with e show "long = rows" by (simp add: inj_on_map_eq_map)
next
  assume "long = rows"
  with s show "sort_values rows long" by (simp add: sort_values_def sort_key_id_if_sorted)
qed

lemma reshape_unique:
  assumes "melt (ensure_columns df) [] = Inr rows" "rows \<noteq> []"
    "sorted (map (\<lambda>rd. ts_key (datetime rd)) rows)" "distinct (map (\<lambda>rd. ts_key (datetime rd)) rows)"
  shows "reshape_and_plot df out = (out = Inr rows)"
  using assms(1,2) sort_values_unique [OF assms(3,4)]
  by (cases out) (auto simp: reshape_and_plot_def)

lemma reshape_empty:
  "melt (ensure_columns df) [] = Inr [] \<Longrightarrow> reshape_and_plot df out = (out = Inl KeyError)"
  by (simp add: reshape_and_plot_def)

lemma melt_example_row:
  "melt (ensure_columns (read_csv [example_row])) [] = Inr example_readings"
  by (simp add: melt_eval)

lemma run_example_row:
  "reshape_and_plot (read_csv [example_row]) out = (out = Inr example_readings)"
  by (rule reshape_unique [OF melt_example_row]) (simp_all add: ts_key_def)

lemma Timestamp_out_of_range:
  "hh < 0 \<or> 23 < hh \<or> mi < 0 \<or> 59 < mi \<Longrightarrow> \<exists>e. Timestamp y m d hh mi = Inl e"
  by (auto simp: Timestamp_def)

text \<open>A time text whose two halves are integers, one of them out of range, ends the run:
  the exception of the timestamp is raised outside the two \<open>try\<close> blocks.\<close>

lemma melt_slot_out_of_range:
  assumes "r (t_col i) = Some (Str T)" "r (h_col i) = Some (Str H)"
    and "strip T \<noteq> []" "strip H \<noteq> []"
    and "py_int (take 2 (zfill 4 T)) = Some hh" "py_int (drop 2 (zfill 4 T)) = Some mi"
    and "hh < 0 \<or> 23 < hh \<or> mi < 0 \<or> 59 < mi"
  shows "\<exists>e. melt_slot mth dy r i = Inl e"
proof -
  from Timestamp_out_of_range [OF assms(7)] obtain e where "Timestamp 2023 mth dy hh mi = Inl e"
    by blast
  then show ?thesis
    unfolding melt_slot_def Let_def get_def using assms(1-6) by simp
qed

lemma sort_values_sort_key: "sort_values rows (sort_key (\<lambda>rd. ts_key (datetime rd)) rows)"
  by (simp add: sort_values_def)

lemma reshape_and_plot_total: "\<exists>out. reshape_and_plot df out"
proof (cases "melt (ensure_columns df) []")
  case (Inl e)
  then show ?thesis by (auto simp: reshape_and_plot_def)
next
  case (Inr rows)
  show ?thesis
  proof (cases "rows = []")
    case True
    with Inr show ?thesis by (auto simp: reshape_and_plot_def)
  next
    case False
    with Inr sort_values_sort_key [of rows]
    have "reshape_and_plot df (Inr (sort_key (\<lambda>rd. ts_key (datetime rd)) rows))"
      by (simp add: reshape_and_plot_def)
    then show ?thesis by blast
  qed
qed

lemma melt_tied_rows: "melt (ensure_columns (read_csv tied_rows)) [] = Inr tied_readings"
  by (simp add: melt_eval)

lemma sort_key_tied: "sort_key (ts_key \<circ> datetime) tied_readings = tied_readings"
  by (rule sort_key_id_if_sorted) (simp add: ts_key_def)

lemma melt_unordered_rows:
  "melt (ensure_columns (read_csv unordered_rows)) []
     = Inr [ordered_readings ! 3, ordered_readings ! 2, ordered_readings ! 1, ordered_readings ! 0]"
  by (simp add: melt_eval)

lemma run_unordered_rows:
  "reshape_and_plot (read_csv unordered_rows) out = (out = Inr ordered_readings)"
proof -
  have "sort_key (\<lambda>rd. ts_key (datetime rd))
      [ordered_readings ! 3, ordered_readings ! 2, ordered_readings ! 1, ordered_readings ! 0]
    = ordered_readings"
    by (simp add: ts_key_def)
  then show ?thesis
    unfolding reshape_and_plot_def melt_unordered_rows
    by (cases out) (auto simp: sort_values_def)
qed

section \<open>Document order\<close>















section \<open>Claims about the extractor\<close>

text \<open>
  Claim C10.  The cell normalisation is idempotent, \<open>normalize_text(normalize_text(s))\<close>
  is \<open>normalize_text(s)\<close> for every string \<open>s\<close>, and it is total on a missing input:
  \<open>normalize_text(None)\<close> is the empty string.  Its result has no white space at its start
  or at its end, no two consecutive spaces, and no non-breaking space.
\<close>

theorem normalize_text_idempotent_clean:
  "normalize_text (Some (normalize_text s)) = normalize_text s
   \<and> normalize_text None = []
   \<and> takeWhile isspace (normalize_text s) = []
   \<and> takeWhile isspace (rev (normalize_text s)) = []
   \<and> \<not> (\<exists>i. Suc i < length (normalize_text s)
          \<and> normalize_text s ! i = CHR '' '' \<and> normalize_text s ! Suc i = CHR '' '')
   \<and> CHR 0xA0 \<notin> set (normalize_text s)"
proof -
  obtain ws where ok: "words_ok ws" and n: "normalize_text s = join '' '' ws"
    using normalize_text_join by blast
  have "normalize_text (Some (join '' '' ws)) = join '' '' ws"
    by (simp add: normalize_text_def Let_def strip_join [OF ok] replace_join [OF ok]
        split_ws_join [OF ok])
  moreover have "normalize_text None = []" by (simp add: normalize_text_def)
  moreover have "\<not> (\<exists>i. Suc i < length (join '' '' ws)
          \<and> join '' '' ws ! i = CHR '' '' \<and> join '' '' ws ! Suc i = CHR '' '')"
    using double_space_join [OF ok] double_space_nth by blast
  moreover have "CHR 0xA0 \<notin> set (join '' '' ws)"
    using set_join [OF ok] isspace_nbsp by auto
  ultimately show ?thesis
    using n takeWhile_join [OF ok] takeWhile_rev_join [OF ok] by simp
qed

theorem normalize_text_idempotent_clean_witness:
  "normalize_text (Some (normalize_text (Some [CHR '' '', CHR ''a'', CHR 0xA0, CHR ''b'', CHR '' '']))) = ''a b''
   \<and> takeWhile isspace ''a b'' = []
   \<and> CHR 0xA0 \<notin> set ''a b''"
proof -
  have n: "normalize_text (Some [CHR '' '', CHR ''a'', CHR 0xA0, CHR ''b'', CHR '' '']) = ''a b''"
    by (simp add: normalize_text_def Let_def strip_def lstrip_def rstrip_def replace_char_def
        isspace_def)
  show ?thesis
    using normalize_text_idempotent_clean [of "Some [CHR '' '', CHR ''a'', CHR 0xA0, CHR ''b'', CHR '' '']"]
    unfolding n by simp
qed



section \<open>Claims about the round trip\<close>

text \<open>
  Claim C5.  Round-trip counting.  Extracting from a document with exactly one table whose
  N rows are well formed (no header cell, at least two data cells) yields exactly N wide
  rows.  Reshaping M wide rows that each have exactly four valid (time, height) pairs
  yields exactly 4 * M readings: the melt loop collects that many, and every file the
  reshaper then writes has that many rows.
\<close>

theorem round_trip_counts:
  "(xpath_all ''table'' tree = [table]
      \<and> list_all (\<lambda>tr. xpath_desc ''th'' tr = [] \<and> 2 \<le> length (xpath_desc ''td'' tr))
            (xpath_desc ''tr'' table)
     \<longrightarrow> length (parse_tables tree) = length (xpath_desc ''tr'' table))
   \<and> (list_all valid_wide_row rows
     \<longrightarrow> (\<exists>rds. melt (ensure_columns (read_csv rows)) [] = Inr rds
            \<and> length rds = 4 * length rows
            \<and> (\<forall>long. reshape_and_plot (read_csv rows) (Inr long)
                  \<longrightarrow> length long = 4 * length rows)))"
proof (intro conjI impI)
  assume a: "xpath_all ''table'' tree = [table]
      \<and> list_all (\<lambda>tr. xpath_desc ''th'' tr = [] \<and> 2 \<le> length (xpath_desc ''td'' tr))
            (xpath_desc ''tr'' table)"
  then have "filter keep_tr (xpath_desc ''tr'' table) = xpath_desc ''tr'' table"
    by (simp add: list_all_iff keep_tr_def)
  with a show "length (parse_tables tree) = length (xpath_desc ''tr'' table)"
    by (simp add: parse_tables_eq)
next
  assume "list_all valid_wide_row rows"
  from melt_valid_wide [OF this] obtain rds where
    rds: "melt (ensure_columns (read_csv rows)) [] = Inr rds" "length rds = 4 * length rows"
    by blast
  have "length long = 4 * length rows" if "reshape_and_plot (read_csv rows) (Inr long)" for long
    using that rds sort_values_length [of rds long]
    by (simp add: reshape_and_plot_def split: if_splits)
  with rds show "\<exists>rds. melt (ensure_columns (read_csv rows)) [] = Inr rds
            \<and> length rds = 4 * length rows
            \<and> (\<forall>long. reshape_and_plot (read_csv rows) (Inr long)
                  \<longrightarrow> length long = 4 * length rows)"
    by blast
qed

theorem round_trip_counts_witness:
  "length (parse_tables (table_of
      [[''03'', ''15'', ''0531'', ''1.2'', ''1145'', ''0.4'', ''1758'', ''1.5'', ''2310'', ''0.3''],
       [''03'', ''16'', ''0015'', ''1.1'', ''601'', ''1.3'', ''1230'', ''0.9'', ''1830'', ''-0.1'']])) = 2
   \<and> (\<exists>rds. melt (ensure_columns (read_csv
      [[''03'', ''15'', ''0531'', ''1.2'', ''1145'', ''0.4'', ''1758'', ''1.5'', ''2310'', ''0.3''],
       [''03'', ''16'', ''0015'', ''1.1'', ''601'', ''1.3'', ''1230'', ''0.9'', ''1830'', ''-0.1'']])) [] = Inr rds
        \<and> length rds = 8)"
proof -
  let ?rows = "[[''03'', ''15'', ''0531'', ''1.2'', ''1145'', ''0.4'', ''1758'', ''1.5'', ''2310'', ''0.3''],
       [''03'', ''16'', ''0015'', ''1.1'', ''601'', ''1.3'', ''1230'', ''0.9'', ''1830'', ''-0.1'']]"
  have h1: "xpath_all ''table'' (table_of ?rows) = [table_of ?rows]
      \<and> list_all (\<lambda>tr. xpath_desc ''th'' tr = [] \<and> 2 \<le> length (xpath_desc ''td'' tr))
            (xpath_desc ''tr'' (table_of ?rows))"
    by (simp add: xpath_table_of xpath_desc_tr_of)
  have h2: "list_all valid_wide_row ?rows"
    by (simp add: row_eval)
  from round_trip_counts [of "table_of ?rows" "table_of ?rows" ?rows] h1 h2
  show ?thesis by (auto simp: xpath_table_of)
qed

text \<open>
  Claim C4.  For every valid four-digit time text \<open>T\<close> and every decimal text \<open>H\<close>:
  extracting a table row that holds the month and day of a calendar day, the pair
  \<open>(T, H)\<close> in one of its four slots and blank cells in the other three, and then reshaping
  what was extracted, yields exactly one reading.  Its \<open>tide_m\<close> is \<open>float(H)\<close>, the hour
  of its \<open>datetime\<close> is the number in the first two characters of \<open>T\<close> and the minute the
  number in the last two.
\<close>

theorem one_pair_round_trip:
  assumes T: "valid_time T" "length T = 4" and H: "decimal_string H"
    and cal: "calendar_day mm dd" and k: "k \<in> {1, 2, 3, 4}"
  shows "parse_tables (table_of [one_pair_row mm dd k T H]) = [one_pair_row mm dd k T H]
    \<and> (\<exists>rd. melt (ensure_columns (read_csv (parse_tables (table_of [one_pair_row mm dd k T H])))) []
            = Inr [rd]
          \<and> py_float H = Some (tide_m rd)
          \<and> ts_hour (datetime rd) = int (digits_value (take 2 T))
          \<and> ts_minute (datetime rd) = int (digits_value (drop 2 T))
          \<and> pair rd = k
          \<and> (\<forall>out. reshape_and_plot
                  (read_csv (parse_tables (table_of [one_pair_row mm dd k T H]))) out
                = (out = Inr [rd])))"
proof -
  let ?row = "one_pair_row mm dd k T H"
  let ?r = "ensure_row (series_of_row ?row)"
  let ?mth = "int (digits_value mm)" and ?dy = "int (digits_value dd)"
  note c = calendar_day_date [OF cal]
  note n = one_pair_row_nth [OF k]
  have dT: "list_all is_digit T" "T \<noteq> []" using T(1) by (simp_all add: valid_time_def)
  have z: "zfill 4 T = T" using T(2) by (simp add: zfill_id)
  have ns: "list_all (\<lambda>s. list_all (\<lambda>c. \<not> isspace c) s) ?row"
    unfolding list_all_iff [of _ ?row] one_pair_row_set [OF k]
    using digits_nospace [OF c(5)] digits_nospace [OF c(7)] digits_nospace [OF dT(1)]
      decimal_string_nospace [OF H]
    by simp
  have ex: "parse_tables (table_of [?row]) = [?row]"
    by (rule parse_tables_table_of) (simp add: n(1) ns)
  have rc: "read_cell mm = Str mm" "read_cell dd = Str dd"
    by (rule read_cell_digits [OF c(5,6)], rule read_cell_digits [OF c(7,8)])
  have m: "?r ''month'' = Some (Str mm)" and d: "?r ''day'' = Some (Str dd)"
    by (simp_all only: ensure_series_of_row [OF n(1)] n(2,3) rc)
  have nk: "?row ! (2 * k) = T" "?row ! (2 * k + 1) = H"
    using n(4) [OF k] n(5) [OF k] by simp_all
  have t: "?r (t_col k) = Some (Str T)"
    by (simp only: ensure_series_of_row(3) [OF n(1) k] nk valid_time_cell [OF T(1)])
  have h: "?r (h_col k) = Some (Str H)"
    by (simp only: ensure_series_of_row(4) [OF n(1) k] nk decimal_string_props(2) [OF H])
  from melt_slot_valid [OF t h T(1) H c(1-4)] obtain q where
    q: "py_float H = Some q"
    and sk: "melt_slot ?mth ?dy ?r k =
      Inr (Some \<lparr>datetime = \<lparr>ts_year = 2023, ts_month = ?mth, ts_day = ?dy,
                     ts_hour = int (digits_value (take 2 T)),
                     ts_minute = int (digits_value (drop 2 T))\<rparr>,
                  tide_m = q, pair = k, month = ?mth, day = ?dy\<rparr>)"
    (is "_ = Inr (Some ?rd)")
    unfolding z by blast
  let ?f = "\<lambda>i. if i = k then Some ?rd else None"
  have slot: "melt_slot ?mth ?dy ?r i = Inr (?f i)" if i: "i \<in> {1, 2, 3, 4}" for i
  proof (cases "i = k")
    case True
    with sk show ?thesis by simp
  next
    case False
    then have "?row ! (2 * i) = []" using n(4) [OF i] by simp
    then have "?r (t_col i) = Some NaN"
      by (simp only: ensure_series_of_row(3) [OF n(1) i] read_cell_empty)
    then have "melt_slot ?mth ?dy ?r i = Inr None"
      by (intro melt_slot_blank) (simp add: blank_def)
    with False show ?thesis by simp
  qed
  have "melt_row ?r [] = Inr ([] @ List.map_filter ?f [1, 2, 3, 4])"
    using slot by (intro melt_row_Inr [OF m d c(5-10)]) blast
  moreover have "List.map_filter ?f [1, 2, 3, 4] = [?rd]"
    using k by (auto simp: map_filter_simps)
  ultimately have mr: "melt_row ?r [] = Inr [?rd]" by simp
  have "?row \<noteq> []" by (simp add: one_pair_row_def)
  then have ml: "melt (ensure_columns (read_csv [?row])) [] = Inr [?rd]"
    by (simp add: read_csv_def ensure_columns_def mr)
  have "reshape_and_plot (read_csv [?row]) out = (out = Inr [?rd])" for out
    by (cases out) (auto simp: reshape_and_plot_def ml sort_values_single)
  with ml q show ?thesis unfolding ex by (intro conjI exI [of _ ?rd]) simp_all
qed

theorem one_pair_round_trip_witness:
  "parse_tables (table_of [one_pair_row ''03'' ''15'' 2 ''0531'' ''1.2''])
     = [[''03'', ''15'', [], [], ''0531'', ''1.2'', [], [], [], []]]
   \<and> (\<exists>rd. melt (ensure_columns (read_csv
            (parse_tables (table_of [one_pair_row ''03'' ''15'' 2 ''0531'' ''1.2''])))) [] = Inr [rd]
         \<and> tide_m rd = Finite (12 / 10)
         \<and> ts_hour (datetime rd) = 5 \<and> ts_minute (datetime rd) = 31 \<and> pair rd = 2)"
proof -
  have T: "valid_time ''0531''" "length ''0531'' = 4" by (simp_all add: time_eval)
  have H: "decimal_string ''1.2''" by (simp add: row_eval)
  have c: "calendar_day ''03'' ''15''" by (simp add: row_eval)
  have k: "(2::nat) \<in> {1, 2, 3, 4}" by simp
  have f: "py_float ''1.2'' = Some (Finite (12 / 10))" by (simp add: float_eval)
  have v: "digits_value (take 2 ''0531'') = 5" "digits_value (drop 2 ''0531'') = 31"
    by (simp_all add: digits_value_def digit_val_def)
  have r: "one_pair_row ''03'' ''15'' 2 ''0531'' ''1.2''
      = [''03'', ''15'', [], [], ''0531'', ''1.2'', [], [], [], []]"
    by (simp add: one_pair_row_def)
  from one_pair_round_trip [OF T H c k] show ?thesis
    unfolding f v r by auto
qed

section \<open>Claims about the reshaper\<close>

text \<open>
  Claim C9.  If the month or the day of any row of the input is not numeric (\<open>int\<close> rejects
  it), the whole reshaper run ends with an uncaught exception and no output is written,
  whatever the other rows and the slots of that row hold: the recovery that skips a slot
  and goes on covers the time and height fields only, not month and day.
\<close>

theorem month_day_abort:
  "r \<in> set df \<and> (not_integer (r ''month'') \<or> not_integer (r ''day''))
   \<longrightarrow> (\<exists>e. melt (ensure_columns df) [] = Inl e
          \<and> (\<forall>out. reshape_and_plot df out = (out = Inl e)))"
proof
  assume a: "r \<in> set df \<and> (not_integer (r ''month'') \<or> not_integer (r ''day''))"
  then obtain e where e: "month_day (ensure_row r) = Inl e"
    using month_day_not_integer [of r] by blast
  then have "\<exists>e. melt_row (ensure_row r) rows = Inl e" for rows
    by (simp add: melt_row_month_day)
  moreover from a have "ensure_row r \<in> set (ensure_columns df)"
    by (simp add: ensure_columns_def)
  ultimately obtain e' where "melt (ensure_columns df) [] = Inl e'"
    using melt_abort [of "ensure_row r" "ensure_columns df" "[]"] by blast
  then show "\<exists>e. melt (ensure_columns df) [] = Inl e
          \<and> (\<forall>out. reshape_and_plot df out = (out = Inl e))"
    using reshape_abort by blast
qed

theorem month_day_abort_witness:
  "\<exists>e. melt (ensure_columns (read_csv
          [[''03'', ''15'', ''0531'', ''1.2'', ''1145'', ''0.4'', ''1758'', ''1.5'', ''2310'', ''0.3''],
           [''xx'', ''16'', ''0601'', ''1.3'', [], [], ''1830'', ''1.6'', [], []]])) [] = Inl e
     \<and> reshape_and_plot (read_csv
          [[''03'', ''15'', ''0531'', ''1.2'', ''1145'', ''0.4'', ''1758'', ''1.5'', ''2310'', ''0.3''],
           [''xx'', ''16'', ''0601'', ''1.3'', [], [], ''1830'', ''1.6'', [], []]]) (Inl e)"
proof -
  let ?bad = "[''xx'', ''16'', ''0601'', ''1.3'', [], [], ''1830'', ''1.6'', [], []]"
  let ?df = "read_csv
          [[''03'', ''15'', ''0531'', ''1.2'', ''1145'', ''0.4'', ''1758'', ''1.5'', ''2310'', ''0.3''], ?bad]"
  have "series_of_row ?bad \<in> set ?df" by (simp add: read_csv_def)
  moreover have "not_integer (series_of_row ?bad ''month'')"
    by (simp add: not_integer_def series_of_row_def expected_def read_cell_def na_values_def int_eval)
  ultimately show ?thesis
    using month_day_abort [of "series_of_row ?bad" ?df] by blast
qed

text \<open>
  Claim C7.  In the reshaper, a slot whose time text or height text is missing or blank is
  skipped silently: it gives no reading and raises nothing.  In particular a row with all
  four pairs blank adds no reading (the run goes on with the readings it had, unless the
  month or day of the row already failed to convert), and the row
  \<open>["03", "16", "0601", "1.3", "", "", "1830", "1.6", "", ""]\<close> yields exactly two
  readings, from the pairs 1 and 3.
\<close>

theorem blank_slot_skipped:
  "(blank (r (t_col i)) \<or> blank (r (h_col i)) \<longrightarrow> melt_slot mth dy r i = Inr None)
   \<and> (list_all (\<lambda>i. blank (r (t_col i)) \<or> blank (r (h_col i))) [1, 2, 3, 4]
      \<longrightarrow> melt_row r rows = (case month_day r of Inl e \<Rightarrow> Inl e | Inr md \<Rightarrow> Inr rows))
   \<and> melt (ensure_columns (read_csv
        [[''03'', ''16'', ''0601'', ''1.3'', [], [], ''1830'', ''1.6'', [], []]])) []
      = Inr [\<lparr>datetime = \<lparr>ts_year = 2023, ts_month = 3, ts_day = 16, ts_hour = 6, ts_minute = 1\<rparr>,
               tide_m = Finite (13 / 10), pair = 1, month = 3, day = 16\<rparr>,
             \<lparr>datetime = \<lparr>ts_year = 2023, ts_month = 3, ts_day = 16, ts_hour = 18, ts_minute = 30\<rparr>,
               tide_m = Finite (16 / 10), pair = 3, month = 3, day = 16\<rparr>]"
proof (intro conjI impI)
  show "melt (ensure_columns (read_csv
        [[''03'', ''16'', ''0601'', ''1.3'', [], [], ''1830'', ''1.6'', [], []]])) []
      = Inr [\<lparr>datetime = \<lparr>ts_year = 2023, ts_month = 3, ts_day = 16, ts_hour = 6, ts_minute = 1\<rparr>,
               tide_m = Finite (13 / 10), pair = 1, month = 3, day = 16\<rparr>,
             \<lparr>datetime = \<lparr>ts_year = 2023, ts_month = 3, ts_day = 16, ts_hour = 18, ts_minute = 30\<rparr>,
               tide_m = Finite (16 / 10), pair = 3, month = 3, day = 16\<rparr>]"
    by (simp add: melt_eval)
qed (simp_all add: melt_slot_blank melt_row_all_blank)

theorem blank_slot_skipped_witness:
  "melt_slot 12 31 (series_of_row [''12'', ''31'', [], [], ''0601'', [], '' '', ''1.6'', ''0601'', '' '']) 3
     = Inr None
   \<and> melt_row (series_of_row [''12'', ''31'', [], [], ''0601'', [], '' '', ''1.6'', ''0601'', '' ''])
        [] = Inr []"
proof -
  let ?s = "series_of_row [''12'', ''31'', [], [], ''0601'', [], '' '', ''1.6'', ''0601'', '' '']"
  have a: "blank (?s (t_col 3)) \<or> blank (?s (h_col 3))"
    by (simp add: blank_def frame_eval t_col_def h_col_def str_nat_digit digit_char_def isspace_def)
  have b: "list_all (\<lambda>i. blank (?s (t_col i)) \<or> blank (?s (h_col i))) [1, 2, 3, 4]"
    by (simp add: blank_def frame_eval t_col_def h_col_def str_nat_digit digit_char_def isspace_def)
  have c: "month_day ?s = Inr (12, 31)"
    by (simp add: month_day_def getitem_def int_of_cell_def frame_eval int_eval)
  from blank_slot_skipped [where r = ?s and i = 3 and mth = 12 and dy = 31 and rows = "[]"] a b
  show ?thesis
    unfolding c by simp
qed

text \<open>
  Claim C6.  Reshaping the single wide row
  \<open>["03", "15", "0531", "1.2", "1145", "0.4", "1758", "1.5", "2310", "0.3"]\<close> with the year
  2023 yields exactly four readings, in the order of the pairs: 2023-03-15 05:31 with 1.2
  from pair 1, 11:45 with 0.4 from pair 2, 17:58 with 1.5 from pair 3 and 23:10 with 0.3
  from pair 4.  The melt loop collects them in this order, and the file written holds
  them in this order.
\<close>

theorem reshape_example_row:
  "melt (ensure_columns (read_csv
      [[''03'', ''15'', ''0531'', ''1.2'', ''1145'', ''0.4'', ''1758'', ''1.5'', ''2310'', ''0.3'']])) []
    = Inr [\<lparr>datetime = \<lparr>ts_year = 2023, ts_month = 3, ts_day = 15, ts_hour = 5, ts_minute = 31\<rparr>,
             tide_m = Finite (12 / 10), pair = 1, month = 3, day = 15\<rparr>,
           \<lparr>datetime = \<lparr>ts_year = 2023, ts_month = 3, ts_day = 15, ts_hour = 11, ts_minute = 45\<rparr>,
             tide_m = Finite (4 / 10), pair = 2, month = 3, day = 15\<rparr>,
           \<lparr>datetime = \<lparr>ts_year = 2023, ts_month = 3, ts_day = 15, ts_hour = 17, ts_minute = 58\<rparr>,
             tide_m = Finite (15 / 10), pair = 3, month = 3, day = 15\<rparr>,
           \<lparr>datetime = \<lparr>ts_year = 2023, ts_month = 3, ts_day = 15, ts_hour = 23, ts_minute = 10\<rparr>,
             tide_m = Finite (3 / 10), pair = 4, month = 3, day = 15\<rparr>]
   \<and> (\<forall>out. reshape_and_plot (read_csv
      [[''03'', ''15'', ''0531'', ''1.2'', ''1145'', ''0.4'', ''1758'', ''1.5'', ''2310'', ''0.3'']]) out
    = (out = Inr [\<lparr>datetime = \<lparr>ts_year = 2023, ts_month = 3, ts_day = 15, ts_hour = 5, ts_minute = 31\<rparr>,
             tide_m = Finite (12 / 10), pair = 1, month = 3, day = 15\<rparr>,
           \<lparr>datetime = \<lparr>ts_year = 2023, ts_month = 3, ts_day = 15, ts_hour = 11, ts_minute = 45\<rparr>,
             tide_m = Finite (4 / 10), pair = 2, month = 3, day = 15\<rparr>,
           \<lparr>datetime = \<lparr>ts_year = 2023, ts_month = 3, ts_day = 15, ts_hour = 17, ts_minute = 58\<rparr>,
             tide_m = Finite (15 / 10), pair = 3, month = 3, day = 15\<rparr>,
           \<lparr>datetime = \<lparr>ts_year = 2023, ts_month = 3, ts_day = 15, ts_hour = 23, ts_minute = 10\<rparr>,
             tide_m = Finite (3 / 10), pair = 4, month = 3, day = 15\<rparr>]))"
  using melt_example_row run_example_row by blast

text \<open>
  Claim C2, as amended.  Every file the reshaper writes is sorted by \<open>datetime\<close>: for all
  adjacent rows \<open>r[i]\<close>, \<open>r[i+1]\<close> of the output, \<open>r[i].datetime <= r[i+1].datetime\<close>; and
  it holds exactly the readings the melt loop collected.  The order of readings with equal
  \<open>datetime\<close> is not fixed to the order of their rows and slots: \<open>sort_values\<close> is called
  with its default \<open>kind\<close>, which is not a stable sort.
\<close>

theorem sorted_by_datetime:
  "(\<exists>out. reshape_and_plot df out)
   \<and> (reshape_and_plot df (Inr long)
      \<longrightarrow> (\<forall>i. Suc i < length long
             \<longrightarrow> ts_key (datetime (long ! i)) \<le> ts_key (datetime (long ! Suc i)))
          \<and> (\<exists>rows. melt (ensure_columns df) [] = Inr rows \<and> mset long = mset rows))"
proof (intro conjI impI)
  show "\<exists>out. reshape_and_plot df out" by (rule reshape_and_plot_total)
next
  assume a: "reshape_and_plot df (Inr long)"
  then obtain rows where rows: "melt (ensure_columns df) [] = Inr rows" and s: "sort_values rows long"
    by (auto simp: reshape_and_plot_def split: sum.splits if_splits)
  from s have "sorted (map (\<lambda>rd. ts_key (datetime rd)) long)" by (rule sort_values_contract)
  then show "\<forall>i. Suc i < length long
          \<longrightarrow> ts_key (datetime (long ! i)) \<le> ts_key (datetime (long ! Suc i))"
    by (auto simp: sorted_iff_nth_Suc)
  from s have "mset long = mset rows" by (rule sort_values_contract)
  with rows show "\<exists>rows. melt (ensure_columns df) [] = Inr rows \<and> mset long = mset rows"
    by blast
qed

theorem sorted_by_datetime_witness:
  "reshape_and_plot (read_csv unordered_rows) (Inr ordered_readings)
   \<and> ts_key (datetime (ordered_readings ! 1)) \<le> ts_key (datetime (ordered_readings ! Suc 1))
   \<and> (\<exists>rows. melt (ensure_columns (read_csv unordered_rows)) [] = Inr rows
         \<and> rows \<noteq> ordered_readings \<and> mset ordered_readings = mset rows)"
proof -
  have r: "reshape_and_plot (read_csv unordered_rows) (Inr ordered_readings)"
    by (simp add: run_unordered_rows)
  have "Suc 1 < length ordered_readings" by simp
  with sorted_by_datetime [of "read_csv unordered_rows" ordered_readings] r melt_unordered_rows
  show ?thesis by auto
qed

text \<open>
  Claim C2 as stated says that the sort is stable, so that readings with equal \<open>datetime\<close>
  keep the order of their rows and slots.  For five rows whose twenty readings all have
  the same \<open>datetime\<close> the code does not keep it: numpy's quicksort partitions the twenty
  positions once around the middle one, which exchanges the positions 1 and 17, 2 and 16,
  and so on to 8 and 10, and then sorts both parts by insertion, which moves nothing.  The
  file written has the readings at the positions 0, 17, 16, ..., 2, 1, 18, 19 of the order
  of rows and slots; a stable sort would leave that order as it is.
\<close>

theorem sort_not_stable_counterexample:
  "melt (ensure_columns (read_csv tied_rows)) [] = Inr tied_readings
   \<and> tied_quicksorted = map ((!) tied_readings)
        [0, 17, 16, 15, 14, 13, 12, 11, 10, 9, 8, 7, 6, 5, 4, 3, 2, 1, 18, 19]
   \<and> reshape_and_plot (read_csv tied_rows) (Inr tied_quicksorted)
   \<and> sort_key (ts_key \<circ> datetime) tied_readings \<noteq> tied_quicksorted"
proof -
  have "sort_values tied_readings tied_quicksorted"
    by (simp add: sort_values_def ts_key_def)
  then have "reshape_and_plot (read_csv tied_rows) (Inr tied_quicksorted)"
    by (simp add: reshape_and_plot_def melt_tied_rows)
  moreover have "sort_key (ts_key \<circ> datetime) tied_readings \<noteq> tied_quicksorted"
    unfolding sort_key_tied by simp
  moreover have "tied_quicksorted = map ((!) tied_readings)
        [0, 17, 16, 15, 14, 13, 12, 11, 10, 9, 8, 7, 6, 5, 4, 3, 2, 1, 18, 19]"
    by simp
  ultimately show ?thesis using melt_tied_rows by blast
qed

text \<open>
  Claim C1.  In the reshaper a malformed time text in a slot, one that is not numeric or
  whose hour or minute is out of range, causes only that slot to be skipped: the other
  slots of the row still give readings and the run does not abort.  The code skips a time
  that is not numeric, but for the row
  \<open>["03", "15", "9999", "1.2", "1145", "0.4", "1758", "1.5", "2310", "0.3"]\<close>, whose first
  time is numeric and out of range, the construction of the timestamp raises \<open>ValueError\<close>
  outside the \<open>try\<close> blocks: the run ends with that exception, and no reading of the
  row and no file is written.
\<close>

theorem out_of_range_time_aborts:
  "melt (ensure_columns (read_csv
      [[''03'', ''15'', ''9999'', ''1.2'', ''1145'', ''0.4'', ''1758'', ''1.5'', ''2310'', ''0.3'']])) []
     = Inl ValueError
   \<and> (\<forall>out. reshape_and_plot (read_csv
      [[''03'', ''15'', ''9999'', ''1.2'', ''1145'', ''0.4'', ''1758'', ''1.5'', ''2310'', ''0.3'']]) out
     = (out = Inl ValueError))"
  (is "?m = _ \<and> _")
proof -
  have m: "?m = Inl ValueError" by (simp add: melt_eval)
  with reshape_abort [OF m] show ?thesis by blast
qed

text \<open>A time that is not numeric in the same place is skipped, and the three other slots
  give their readings.\<close>

lemma non_numeric_time_skipped:
  "melt (ensure_columns (read_csv
      [[''03'', ''15'', ''ab12'', ''1.2'', ''1145'', ''0.4'', ''1758'', ''1.5'', ''2310'', ''0.3'']])) []
     = Inr (tl example_readings)"
  by (simp add: melt_eval)

text \<open>
  Claim C3.  When a stage has nothing to write (no row extracted, no reading collected),
  it reports a non-fatal condition and creates or overwrites no file.  The extractor does
  so: without rows it prints its message and returns before \<open>write_csv\<close>.  The reshaper
  does not: for a wide file whose only row
  \<open>["03", "16", "", "", "", "", "", "", "", ""]\<close> has four blank pairs the melt loop
  collects no reading, and \<open>sort_values('datetime')\<close> on the frame without columns raises
  \<open>KeyError\<close>, which nothing catches.  No file is written, but the run ends with the
  exception.
\<close>

theorem empty_result_reshaper_raises:
  "main tree = (if parse_tables tree = [] then No_table_rows_parsed
                 else Wrote_csv (parse_tables tree))
   \<and> melt (ensure_columns (read_csv [[''03'', ''16'', [], [], [], [], [], [], [], []]])) [] = Inr []
   \<and> (\<forall>out. reshape_and_plot (read_csv [[''03'', ''16'', [], [], [], [], [], [], [], []]]) out
     = (out = Inl KeyError))"
  (is "_ \<and> ?m = _ \<and> _")
proof -
  have m: "?m = Inr []" by (simp add: melt_eval)
  with reshape_empty [OF m] main_no_rows show ?thesis by blast
qed

end
